theory Spec2Isabelle
  imports Complex_Main "HOL-Library.Char_ord" "HOL-Library.List_Lexorder"
begin

section \<open>JavaScript values used by the render loop and the compositor\<close>

text \<open>
  The only exception the embedded code can raise is the \<open>TypeError\<close> of reading a
  property of \<open>undefined\<close> or \<open>null\<close>, or of calling a value that is not a function.
\<close>

datatype error = TypeError

text \<open>
  An array that may have holes is a list of options: a hole, and every index at or beyond
  the length, reads as \<open>undefined\<close> (\<open>None\<close>). Writing at an index at or beyond the
  length extends the array with holes, as JavaScript does.
\<close>

definition array_get :: "'a option list \<Rightarrow> nat \<Rightarrow> 'a option" where
  "array_get xs i = (if i < length xs then xs ! i else None)"

definition array_set :: "'a option list \<Rightarrow> nat \<Rightarrow> 'a \<Rightarrow> 'a option list" where
  "array_set xs i v = (xs @ replicate (Suc i - length xs) None)[i := Some v]"

text \<open>
  An object used as a dictionary is an association list of its own properties, in
  insertion order; \<open>map_of\<close> reads an own property. JavaScript enumerates integer-like
  keys before the others; every \<open>for ... in\<close> loop of the embedded code writes only to the
  entry of the key it visits, so the order of enumeration is not observable through
  \<open>map_of\<close>.
\<close>

type_synonym 'v obj = "(string \<times> 'v) list"

fun obj_set :: "string \<Rightarrow> 'v \<Rightarrow> 'v obj \<Rightarrow> 'v obj" where
  "obj_set k v [] = [(k, v)]"
| "obj_set k v (p # ps) = (if fst p = k then (k, v) # ps else p # obj_set k v ps)"

text \<open>
  The dictionaries of the code are plain objects (\<open>{}\<close>), which inherit the properties
  of \<open>Object.prototype\<close>. A read \<open>o[k]\<close> gives the own property if there is one, the
  inherited one if \<open>k\<close> is one of the names below, and \<open>undefined\<close> otherwise. The
  inherited values are functions and, for \<open>__proto__\<close>, the prototype itself: all are
  truthy, none is a string or an array, and none has a property \<open>source\<close>, \<open>type\<close> or
  \<open>push\<close>.
\<close>

definition prototype_names :: "string list" where
  "prototype_names =
     [''constructor'', ''hasOwnProperty'', ''isPrototypeOf'', ''propertyIsEnumerable'',
      ''toLocaleString'', ''toString'', ''valueOf'', ''__proto__'', ''__defineGetter__'',
      ''__defineSetter__'', ''__lookupGetter__'', ''__lookupSetter__'']"

definition inherited :: "string \<Rightarrow> bool" where
  "inherited k = (k \<in> set prototype_names)"

datatype 'v property = Own 'v | Inherited | Undefined

definition read :: "'v obj \<Rightarrow> string \<Rightarrow> 'v property" where
  "read al k =
     (case map_of al k of
        Some v \<Rightarrow> Own v
      | None \<Rightarrow> if inherited k then Inherited else Undefined)"

text \<open>Truthiness of the values the code tests: a number, a string, a boolean.\<close>

definition truthy_index :: "nat option \<Rightarrow> bool" where
  "truthy_index v = (case v of None \<Rightarrow> False | Some n \<Rightarrow> n \<noteq> 0)"

definition truthy_string :: "string option \<Rightarrow> bool" where
  "truthy_string v = (case v of None \<Rightarrow> False | Some s \<Rightarrow> s \<noteq> [])"

definition truthy_flag :: "bool option \<Rightarrow> bool" where
  "truthy_flag v = (case v of None \<Rightarrow> False | Some b \<Rightarrow> b)"

text \<open>A property key that is \<open>undefined\<close> is coerced to the string \<open>undefined\<close>.\<close>

definition prop_key :: "string option \<Rightarrow> string" where
  "prop_key v = (case v of None \<Rightarrow> ''undefined'' | Some s \<Rightarrow> s)"

text \<open>\<open>Array.prototype.join()\<close> with its default separator, a comma.\<close>

fun join :: "string list \<Rightarrow> string" where
  "join [] = []"
| "join [s] = s"
| "join (s # t # ss) = s @ '','' @ join (t # ss)"


section \<open>The render-to-texture compositor\<close>

subsection \<open>Data\<close>

record OverscaledTileID =
  key :: string

record Tile =
  tileID :: OverscaledTileID
  tile_rttFBOs :: "nat option list"
  tile_rttCoords :: "string \<rightharpoonup> string"

datatype LayerType =
  Background | Fill | Line | Raster | Symbol | Hillshade | Circle | Heatmap | FillExtrusion
  | Custom

record StyleLayer =
  layerId :: string
  layerType :: LayerType
  layerSource :: "string option"

text \<open>
  Of the style the compositor reads the layer order, the layers by id and, for each source
  cache, the coordinates \<open>getVisibleCoordinates()\<close> returns. \<open>style_sourceCaches\<close> are
  the source caches that \<open>for (const id in style.sourceCaches)\<close> enumerates. An
  assignment to the property \<open>__proto__\<close> replaces the prototype of an object instead of
  adding a property; the model has no prototype other than \<open>Object.prototype\<close>, and the
  theorems on \<open>initialize\<close> are stated for styles that enumerate no source cache under
  that name.
\<close>

record Style =
  style_order :: "string list"
  style_layers :: "StyleLayer obj"
  style_sourceCaches :: "OverscaledTileID list obj"

text \<open>
  The terrain is a collaborator outside this code: \<open>getTerrainCoords\<close> and
  \<open>needsRerender\<close> are its answers, and \<open>fboSize\<close> is
  \<open>terrain.sourceCache.tileSize * terrain.qualityFactor\<close>.
\<close>

record Terrain =
  getTerrainCoords :: "OverscaledTileID \<Rightarrow> OverscaledTileID obj"
  needsRerender :: "string \<Rightarrow> OverscaledTileID \<Rightarrow> bool"
  fboSize :: nat

record Framebuffer =
  fbo_width :: nat
  fbo_height :: nat

record Texture =
  tex_width :: nat
  tex_height :: nat

text \<open>
  What the compositor asks of the painter and of \<open>drawTerrain\<close> is recorded, in order, in
  \<open>calls\<close>. \<open>PrepareFBO i\<close> is the bind, viewport and clear of \<open>prepareFBO\<close>;
  \<open>DrawTerrain\<close> carries, for each renderable tile, the texture \<open>getTexture\<close> resolves,
  named by its position in \<open>rttTextures\<close>.
\<close>

datatype painter_call =
    PrepareFBO nat
  | RenderTileClippingMasks string "OverscaledTileID list option"
  | RenderLayer string "OverscaledTileID list option"
  | DrawTerrain "nat option list"

record Painter =
  painter_style :: Style
  painter_terrain :: Terrain
  currentLayer :: nat
  calls :: "painter_call list"

text \<open>
  The constructor sets the painter, the two pool arrays and the lookup table
  \<open>_renderToTexture\<close>; the other fields are set by \<open>initialize\<close>, which the painter
  calls at the start of every frame. \<open>Constructed\<close> has the fields the constructor sets, and
  \<open>RenderToTexture\<close> all of them: the functions that read a field \<open>initialize\<close> sets
  take a \<open>RenderToTexture\<close>, and so cannot run before \<open>initialize\<close> has.
\<close>

record Constructed =
  painter :: Painter
  rttFBOs :: "Framebuffer list"
  rttTextures :: "Texture list"

record RenderToTexture = Constructed +
  rttUsedFBOs :: "bool option list"
  coordsDescendingInv :: "OverscaledTileID list obj obj"
  coordsDescendingInvStr :: "string obj obj"
  stacks :: "string option list list"
  prevType :: "LayerType option"
  renderableTiles :: "Tile list"

text \<open>The lookup table \<open>_renderToTexture\<close> set up by the constructor.\<close>

fun renderToTexture :: "LayerType \<Rightarrow> bool" where
  "renderToTexture Background = True"
| "renderToTexture Fill = True"
| "renderToTexture Line = True"
| "renderToTexture Raster = True"
| "renderToTexture _ = False"

text \<open>\<open>this._renderToTexture[this._prevType]\<close>, where \<open>_prevType\<close> may be \<open>null\<close>.\<close>

definition renderToTexture_prev :: "LayerType option \<Rightarrow> bool" where
  "renderToTexture_prev t = (case t of None \<Rightarrow> False | Some ty \<Rightarrow> renderToTexture ty)"

definition constructor :: "Painter \<Rightarrow> Constructed" where
  "constructor p = \<lparr>painter = p, rttFBOs = [], rttTextures = []\<rparr>"


subsection \<open>The surface pool: getFBO, prepareFBO, freeFBO\<close>

text \<open>The search loop of \<open>getFBO\<close>: the first index below the pool size that is not in use.\<close>

fun firstFree :: "bool option list \<Rightarrow> nat \<Rightarrow> nat \<Rightarrow> nat option" where
  "firstFree used i 0 = None"
| "firstFree used i (Suc n) =
     (if \<not> truthy_flag (array_get used i) then Some i else firstFree used (Suc i) n)"

definition getFBO :: "RenderToTexture \<Rightarrow> nat \<times> RenderToTexture" where
  "getFBO s =
     (case firstFree (rttUsedFBOs s) 0 (length (rttFBOs s)) of
        Some i \<Rightarrow> (i, s\<lparr>rttUsedFBOs := array_set (rttUsedFBOs s) i True\<rparr>)
      | None \<Rightarrow>
          (let size = fboSize (painter_terrain (painter s));
               fbo = \<lparr>fbo_width = size, fbo_height = size\<rparr>;
               texture = \<lparr>tex_width = size, tex_height = size\<rparr>;
               s1 = s\<lparr>rttFBOs := rttFBOs s @ [fbo]\<rparr>;
               s2 = s1\<lparr>rttTextures := rttTextures s1 @ [texture]\<rparr>
           in (length (rttFBOs s2) - 1, s2)))"

definition log_call :: "painter_call \<Rightarrow> RenderToTexture \<Rightarrow> RenderToTexture" where
  "log_call c s = s\<lparr>painter := (painter s)\<lparr>calls := calls (painter s) @ [c]\<rparr>\<rparr>"

definition prepareFBO :: "nat \<Rightarrow> RenderToTexture \<Rightarrow> error + RenderToTexture" where
  "prepareFBO i s =
     (if i < length (rttFBOs s) then Inr (log_call (PrepareFBO i) s) else Inl TypeError)"

definition freeFBO :: "nat option \<Rightarrow> RenderToTexture \<Rightarrow> RenderToTexture" where
  "freeFBO i s =
     (case i of
        Some n \<Rightarrow> s\<lparr>rttUsedFBOs := array_set (rttUsedFBOs s) n False\<rparr>
      | None \<Rightarrow> s)"

definition slot_in_use :: "RenderToTexture \<Rightarrow> nat \<Rightarrow> bool" where
  "slot_in_use s i = truthy_flag (array_get (rttUsedFBOs s) i)"


subsection \<open>initialize\<close>

text \<open>A loop whose body may raise: the first exception ends it.\<close>

fun forEach :: "('a \<Rightarrow> 'b \<Rightarrow> error + 'b) \<Rightarrow> 'a list \<Rightarrow> 'b \<Rightarrow> error + 'b" where
  "forEach f [] acc = Inr acc"
| "forEach f (x # xs) acc =
     (case f x acc of Inl e \<Rightarrow> Inl e | Inr acc1 \<Rightarrow> forEach f xs acc1)"

text \<open>
  The first loop of \<open>initialize\<close>: for each source cache, every visible coordinate is
  pushed onto the list of each terrain tile key that \<open>getTerrainCoords\<close> reports for it.
  \<open>obj_push\<close> is the body of the innermost loop,
  \<open>if (!m[key]) m[key] = []; m[key].push(c)\<close>: under a key that \<open>Object.prototype\<close>
  defines the read is truthy, no list is made, and \<open>push\<close> is not a function of the
  value read.
\<close>

definition obj_push :: "string \<Rightarrow> 'a \<Rightarrow> 'a list obj \<Rightarrow> error + 'a list obj" where
  "obj_push k c m =
     (case read m k of
        Undefined \<Rightarrow> Inr (obj_set k [c] m)
      | Own cs \<Rightarrow> Inr (obj_set k (cs @ [c]) m)
      | Inherited \<Rightarrow> Inl TypeError)"

definition collectTerrainCoords ::
  "Terrain \<Rightarrow> OverscaledTileID list \<Rightarrow> error + OverscaledTileID list obj" where
  "collectTerrainCoords terrain tileIDs =
     forEach (\<lambda>tileID. forEach (\<lambda>(k, c). obj_push k c) (getTerrainCoords terrain tileID))
       tileIDs []"

definition fillCoordsDescendingInv ::
  "Style \<Rightarrow> Terrain \<Rightarrow> error + OverscaledTileID list obj obj" where
  "fillCoordsDescendingInv style terrain =
     forEach (\<lambda>(sid, tileIDs) acc.
         case collectTerrainCoords terrain tileIDs of
           Inl e \<Rightarrow> Inl e
         | Inr m \<Rightarrow> Inr (obj_set sid m acc))
       (style_sourceCaches style) []"

text \<open>
  \<open>cs.map(c => c.key).sort().join()\<close>: the default sort compares the keys as strings,
  code unit by code unit, which is the lexicographic order on \<open>string\<close>.
\<close>

definition compositeKey :: "OverscaledTileID list \<Rightarrow> string" where
  "compositeKey cs = join (sort (map key cs))"

text \<open>
  The second loop, over the layer order. A layer id that \<open>_layers\<close> neither has nor
  inherits makes \<open>layer.source\<close> raise; under an inherited id the value read has no
  \<open>type\<close>, and \<open>this._renderToTexture[undefined]\<close> is falsy. The test
  \<open>!this._coordsDescendingInvStr[source]\<close> fails for a source that has an entry and for
  one whose name \<open>Object.prototype\<close> defines. Where it succeeds, the name is not an
  inherited one, and an entry it does not find in \<open>_coordsDescendingInv\<close> is
  \<open>undefined\<close> and enumerated as empty.
\<close>

fun fillCoordsDescendingInvStr ::
  "StyleLayer obj \<Rightarrow> OverscaledTileID list obj obj \<Rightarrow> string list \<Rightarrow> string obj obj
     \<Rightarrow> error + string obj obj" where
  "fillCoordsDescendingInvStr layers cinv [] str = Inr str"
| "fillCoordsDescendingInvStr layers cinv (lid # ids) str =
     (case read layers lid of
        Undefined \<Rightarrow> Inl TypeError
      | Inherited \<Rightarrow> fillCoordsDescendingInvStr layers cinv ids str
      | Own layer \<Rightarrow>
          (let source = prop_key (layerSource layer) in
           if renderToTexture (layerType layer) \<and> read str source = Undefined
           then fillCoordsDescendingInvStr layers cinv ids
                  (obj_set source
                     (map (\<lambda>(k, cs). (k, compositeKey cs))
                        (case map_of cinv source of None \<Rightarrow> [] | Some m \<Rightarrow> m))
                     str)
           else fillCoordsDescendingInvStr layers cinv ids str))"

text \<open>
  The third loop, over the renderable tiles. \<open>checkSource\<close> is the body of its inner loop
  over the sources of \<open>_coordsDescendingInvStr\<close>; \<open>markUsed\<close> is the body of the loop
  over \<open>tile.rttFBOs\<close> (a hole sets the property \<open>undefined\<close> of the array, which no
  index reads). \<open>changed\<close> is the test \<open>coords && coords !== tile.rttCoords[source]\<close>:
  a tile whose key \<open>Object.prototype\<close> defines reads an inherited value, which is truthy
  and is not the string or the \<open>undefined\<close> the tile has recorded.
\<close>

definition changed :: "string property \<Rightarrow> string option \<Rightarrow> bool" where
  "changed coords recorded =
     (case coords of
        Own c \<Rightarrow> truthy_string (Some c) \<and> Some c \<noteq> recorded
      | Inherited \<Rightarrow> True
      | Undefined \<Rightarrow> False)"

definition checkSource :: "Terrain \<Rightarrow> string \<times> string obj \<Rightarrow> Tile \<Rightarrow> Tile" where
  "checkSource terrain entry tile =
     (let source = fst entry;
          coords = read (snd entry) (key (tileID tile));
          tile1 = (if changed coords (tile_rttCoords tile source)
                   then tile\<lparr>tile_rttFBOs := []\<rparr> else tile)
      in if needsRerender terrain source (tileID tile1)
         then tile1\<lparr>tile_rttFBOs := []\<rparr> else tile1)"

definition markUsed :: "nat option \<Rightarrow> bool option list \<Rightarrow> bool option list" where
  "markUsed i used = (case i of Some n \<Rightarrow> array_set used n True | None \<Rightarrow> used)"

fun checkTiles ::
  "string obj obj \<Rightarrow> Terrain \<Rightarrow> Tile list \<Rightarrow> bool option list
     \<Rightarrow> Tile list \<times> bool option list" where
  "checkTiles str terrain [] used = ([], used)"
| "checkTiles str terrain (tile # tiles) used =
     (let tile1 = fold (checkSource terrain) str tile;
          used1 = fold markUsed (tile_rttFBOs tile1) used;
          rest = checkTiles str terrain tiles used1
      in (tile1 # fst rest, snd rest))"

text \<open>
  \<open>tiles\<close> is what \<open>terrain.sourceCache.getRenderableTiles()\<close> returns: the tile
  objects themselves, with the \<open>rttFBOs\<close> and \<open>rttCoords\<close> the previous frame left on
  them. \<open>initialize\<close> assigns every field the constructor left unset and keeps the
  painter and the pool, whether it runs on a compositor fresh from the constructor or on
  one that has drawn frames. \<open>clearRerenderCache\<close> and \<open>removeOutdated\<close> act on the
  terrain only.
\<close>

definition initialize :: "Tile list \<Rightarrow> 'a Constructed_scheme \<Rightarrow> error + RenderToTexture" where
  "initialize tiles s =
     (let style = painter_style (painter s);
          terrain = painter_terrain (painter s)
      in case fillCoordsDescendingInv style terrain of
           Inl e \<Rightarrow> Inl e
         | Inr cinv \<Rightarrow>
             (case fillCoordsDescendingInvStr (style_layers style) cinv (style_order style) [] of
                Inl e \<Rightarrow> Inl e
              | Inr str \<Rightarrow>
                  (let checked = checkTiles str terrain tiles []
                   in Inr \<lparr>painter = painter s, rttFBOs = rttFBOs s,
                           rttTextures = rttTextures s, rttUsedFBOs = snd checked,
                           coordsDescendingInv = cinv, coordsDescendingInvStr = str,
                           stacks = [], prevType = None,
                           renderableTiles = fst checked\<rparr>)))"


subsection \<open>renderLayer\<close>

text \<open>
  The loop over the layers of a stack, for one tile. An id that is \<open>undefined\<close> or
  missing from \<open>_layers\<close> makes \<open>layer.source\<close> raise, and so does a source missing from
  \<open>_coordsDescendingInv\<close> or \<open>_coordsDescendingInvStr\<close>.

  What the drawing code reads it hands to the painter and records on the tile. The
  drawing functions are modelled for reads that give an own property or \<open>undefined\<close>,
  which is every read under a name that \<open>Object.prototype\<close> does not define; the
  theorems on drawing are stated for such names (\<open>plain_names\<close>).
\<close>

fun drawStackLayers ::
  "string option list \<Rightarrow> Tile \<Rightarrow> RenderToTexture \<Rightarrow> error + Tile \<times> RenderToTexture" where
  "drawStackLayers [] tile s = Inr (tile, s)"
| "drawStackLayers (l # ls) tile s =
     (case map_of (style_layers (painter_style (painter s))) (prop_key l) of
        None \<Rightarrow> Inl TypeError
      | Some layer \<Rightarrow>
          (if truthy_string (layerSource layer)
           then (case map_of (coordsDescendingInv s) (prop_key (layerSource layer)) of
                   None \<Rightarrow> Inl TypeError
                 | Some m \<Rightarrow>
                     (let coords = map_of m (key (tileID tile));
                          s1 = log_call (RenderTileClippingMasks (layerId layer) coords) s;
                          s2 = log_call (RenderLayer (layerId layer) coords) s1
                      in case map_of (coordsDescendingInvStr s2) (prop_key (layerSource layer)) of
                           None \<Rightarrow> Inl TypeError
                         | Some ms \<Rightarrow>
                             drawStackLayers ls
                               (tile\<lparr>tile_rttCoords := (tile_rttCoords tile)
                                  (prop_key (layerSource layer) := map_of ms (key (tileID tile)))\<rparr>)
                               s2))
           else (let coords = Some [tileID tile];
                     s1 = log_call (RenderTileClippingMasks (layerId layer) coords) s;
                     s2 = log_call (RenderLayer (layerId layer) coords) s1
                 in drawStackLayers ls tile s2)))"

text \<open>The body of the flush loop for one tile, and the loop.\<close>

definition flushTile ::
  "nat \<Rightarrow> string option list \<Rightarrow> Tile \<Rightarrow> RenderToTexture \<Rightarrow> error + Tile \<times> RenderToTexture" where
  "flushTile stack layers tile s =
     (if truthy_index (array_get (tile_rttFBOs tile) stack) then Inr (tile, s)
      else (let got = getFBO s;
                tile1 = tile\<lparr>tile_rttFBOs := array_set (tile_rttFBOs tile) stack (fst got)\<rparr>
            in case prepareFBO (fst got) (snd got) of
                 Inl e \<Rightarrow> Inl e
               | Inr s2 \<Rightarrow> drawStackLayers layers tile1 s2))"

fun flushTiles ::
  "nat \<Rightarrow> string option list \<Rightarrow> Tile list \<Rightarrow> RenderToTexture
     \<Rightarrow> error + Tile list \<times> RenderToTexture" where
  "flushTiles stack layers [] s = Inr ([], s)"
| "flushTiles stack layers (tile # tiles) s =
     (case flushTile stack layers tile s of
        Inl e \<Rightarrow> Inl e
      | Inr (tile1, s1) \<Rightarrow>
          (case flushTiles stack layers tiles s1 of
             Inl e \<Rightarrow> Inl e
           | Inr (tiles1, s2) \<Rightarrow> Inr (tile1 # tiles1, s2)))"

text \<open>The loop of the hillshade branch: free, claim, prepare, draw the layer itself.\<close>

definition hillshadeTile ::
  "nat \<Rightarrow> StyleLayer \<Rightarrow> Tile \<Rightarrow> RenderToTexture \<Rightarrow> error + Tile \<times> RenderToTexture" where
  "hillshadeTile stack layer tile s =
     (let s0 = freeFBO (array_get (tile_rttFBOs tile) stack) s;
          got = getFBO s0;
          tile1 = tile\<lparr>tile_rttFBOs := array_set (tile_rttFBOs tile) stack (fst got)\<rparr>
      in case prepareFBO (fst got) (snd got) of
           Inl e \<Rightarrow> Inl e
         | Inr s2 \<Rightarrow>
             (case map_of (coordsDescendingInv s2) (prop_key (layerSource layer)) of
                None \<Rightarrow> Inl TypeError
              | Some m \<Rightarrow>
                  (let coords = map_of m (key (tileID tile1));
                       s3 = log_call (RenderTileClippingMasks (layerId layer) coords) s2;
                       s4 = log_call (RenderLayer (layerId layer) coords) s3
                   in Inr (tile1, s4))))"

fun hillshadeTiles ::
  "nat \<Rightarrow> StyleLayer \<Rightarrow> Tile list \<Rightarrow> RenderToTexture
     \<Rightarrow> error + Tile list \<times> RenderToTexture" where
  "hillshadeTiles stack layer [] s = Inr ([], s)"
| "hillshadeTiles stack layer (tile # tiles) s =
     (case hillshadeTile stack layer tile s of
        Inl e \<Rightarrow> Inl e
      | Inr (tile1, s1) \<Rightarrow>
          (case hillshadeTiles stack layer tiles s1 of
             Inl e \<Rightarrow> Inl e
           | Inr (tiles1, s2) \<Rightarrow> Inr (tile1 # tiles1, s2)))"

text \<open>
  \<open>getTexture\<close> is \<open>this.rttTextures[tile.rttFBOs[stack]]\<close> for the last stack: the
  texture at the index the tile holds, which is \<open>undefined\<close> if the tile holds none or
  the index is outside the pool. A texture is named by its position in \<open>rttTextures\<close>.
  With no stack the index read is \<open>tile.rttFBOs[-1]\<close>. \<open>drawTerrain(painter, this, tiles)\<close>
  asks for the texture of every tile.
\<close>

definition getTexture :: "Tile \<Rightarrow> RenderToTexture \<Rightarrow> nat option" where
  "getTexture tile s =
     (if stacks s = [] then None
      else (case array_get (tile_rttFBOs tile) (length (stacks s) - 1) of
              None \<Rightarrow> None
            | Some i \<Rightarrow> if i < length (rttTextures s) then Some i else None))"

definition drawTerrain :: "RenderToTexture \<Rightarrow> RenderToTexture" where
  "drawTerrain s = log_call (DrawTerrain (map (\<lambda>tile. getTexture tile s) (renderableTiles s))) s"

text \<open>\<open>layerIds[currentLayer]\<close>, which is \<open>undefined\<close> out of range.\<close>

definition currentLayerId :: "RenderToTexture \<Rightarrow> string option" where
  "currentLayerId s =
     (let layerIds = style_order (painter_style (painter s));
          i = currentLayer (painter s)
      in if i < length layerIds then Some (layerIds ! i) else None)"

text \<open>
  The first block of \<open>renderLayer\<close>: the layer joins the last stack, or opens one. With
  no stack to join, \<open>this._stacks[-1].push\<close> raises.
\<close>

definition rememberLayer :: "StyleLayer \<Rightarrow> RenderToTexture \<Rightarrow> error + RenderToTexture" where
  "rememberLayer layer s =
     (let s1 = (if prevType s = None \<or> \<not> renderToTexture_prev (prevType s)
                then s\<lparr>stacks := stacks s @ [[]]\<rparr> else s);
          s2 = s1\<lparr>prevType := Some (layerType layer)\<rparr>
      in if stacks s2 = [] then Inl TypeError
         else Inr (s2\<lparr>stacks := butlast (stacks s2) @ [last (stacks s2) @ [currentLayerId s2]]\<rparr>))"

text \<open>
  The block that renders a finished stack. With no stack at all the loop is skipped and
  \<open>drawTerrain\<close> still runs.
\<close>

definition flushStack :: "RenderToTexture \<Rightarrow> error + RenderToTexture" where
  "flushStack s =
     (if stacks s = [] then Inr (drawTerrain s)
      else (let stack = length (stacks s) - 1;
                layers = stacks s ! stack
            in case flushTiles stack layers (renderableTiles s) s of
                 Inl e \<Rightarrow> Inl e
               | Inr (tiles1, s1) \<Rightarrow> Inr (drawTerrain (s1\<lparr>renderableTiles := tiles1\<rparr>))))"

definition renderHillshade :: "StyleLayer \<Rightarrow> RenderToTexture \<Rightarrow> error + RenderToTexture" where
  "renderHillshade layer s =
     (let s1 = s\<lparr>stacks := stacks s @ [[currentLayerId s]]\<rparr>;
          stack = length (stacks s1) - 1
      in case hillshadeTiles stack layer (renderableTiles s1) s1 of
           Inl e \<Rightarrow> Inl e
         | Inr (tiles1, s2) \<Rightarrow> Inr (drawTerrain (s2\<lparr>renderableTiles := tiles1\<rparr>)))"

text \<open>
  \<open>renderLayer\<close> returns whether the layer is rendered to texture; the \<open>undefined\<close> that
  \<open>this._renderToTexture[type]\<close> gives for the other types is falsy and returned as
  \<open>False\<close>.
\<close>

definition renderLayer :: "StyleLayer \<Rightarrow> RenderToTexture \<Rightarrow> error + bool \<times> RenderToTexture" where
  "renderLayer layer s =
     (let type = layerType layer;
          layerIds = style_order (painter_style (painter s));
          isLastLayer = (currentLayer (painter s) + 1 = length layerIds)
      in case (if renderToTexture type then rememberLayer layer s else Inr s) of
           Inl e \<Rightarrow> Inl e
         | Inr s1 \<Rightarrow>
             (if renderToTexture type \<and> \<not> isLastLayer then Inr (True, s1)
              else if renderToTexture_prev (prevType s1) \<or> type = Hillshade
                      \<or> (renderToTexture type \<and> isLastLayer)
              then (case flushStack (s1\<lparr>prevType := Some type\<rparr>) of
                      Inl e \<Rightarrow> Inl e
                    | Inr s2 \<Rightarrow>
                        (if type = Hillshade
                         then (case renderHillshade layer s2 of
                                 Inl e \<Rightarrow> Inl e
                               | Inr s3 \<Rightarrow> Inr (True, s3))
                         else Inr (renderToTexture type, s2)))
              else Inr (False, s1)))"


subsection \<open>Reading the compositor's tables\<close>

text \<open>
  The entries of the two tables: the own property \<open>key\<close> of the own property
  \<open>source\<close> of \<open>_coordsDescendingInv\<close> and of \<open>_coordsDescendingInvStr\<close>, with
  \<open>None\<close> where either level is missing.
\<close>

definition contributing :: "RenderToTexture \<Rightarrow> string \<Rightarrow> string \<Rightarrow> OverscaledTileID list option" where
  "contributing s source k =
     (case map_of (coordsDescendingInv s) source of None \<Rightarrow> None | Some m \<Rightarrow> map_of m k)"

definition compositeKeyOf :: "RenderToTexture \<Rightarrow> string \<Rightarrow> string \<Rightarrow> string option" where
  "compositeKeyOf s source k =
     (case map_of (coordsDescendingInvStr s) source of None \<Rightarrow> None | Some m \<Rightarrow> map_of m k)"

text \<open>
  The sources of the layers in the layer order whose type is rendered to texture. The
  second loop of \<open>initialize\<close> makes an entry for those among them whose name
  \<open>Object.prototype\<close> does not define.
\<close>

definition compositableSource :: "StyleLayer obj \<Rightarrow> string \<Rightarrow> string option" where
  "compositableSource layers lid =
     (case map_of layers lid of
        None \<Rightarrow> None
      | Some layer \<Rightarrow>
          if renderToTexture (layerType layer) then Some (prop_key (layerSource layer)) else None)"

definition compositableSources :: "Style \<Rightarrow> string list" where
  "compositableSources style =
     List.map_filter (compositableSource (style_layers style)) (style_order style)"

definition serialized :: "OverscaledTileID list obj obj \<Rightarrow> string \<Rightarrow> string obj" where
  "serialized cinv source =
     map (\<lambda>(k, cs). (k, compositeKey cs)) (case map_of cinv source of None \<Rightarrow> [] | Some m \<Rightarrow> m)"

text \<open>
  The CompositeKey in the words of the specification: the contributing source-tile
  identities, "serialized as a sorted, de-duplicated joined string". It is compared with
  \<open>compositeKey\<close>, which is what the code computes.
\<close>

definition compositeKey_spec :: "OverscaledTileID list \<Rightarrow> string" where
  "compositeKey_spec cs = join (sort (remdups (map key cs)))"


subsection \<open>The draw loop\<close>

text \<open>
  Modelled from the spec: the painter's loop over the layer order, which is not among the
  sources ("for each layer in draw order"). It hands each layer to \<open>renderLayer\<close> with
  \<open>currentLayer\<close> set to the layer's position and collects what \<open>renderLayer\<close> returns.
\<close>

definition atLayer :: "nat \<Rightarrow> RenderToTexture \<Rightarrow> RenderToTexture" where
  "atLayer i s = s\<lparr>painter := (painter s)\<lparr>currentLayer := i\<rparr>\<rparr>"

fun drawOrder ::
  "StyleLayer list \<Rightarrow> nat \<Rightarrow> RenderToTexture \<Rightarrow> error + bool list \<times> RenderToTexture" where
  "drawOrder [] i s = Inr ([], s)"
| "drawOrder (layer # layers) i s =
     (case renderLayer layer (atLayer i s) of
        Inl e \<Rightarrow> Inl e
      | Inr (r, s1) \<Rightarrow>
          (case drawOrder layers (Suc i) s1 of
             Inl e \<Rightarrow> Inl e
           | Inr (rs, s2) \<Rightarrow> Inr (r # rs, s2)))"




subsection \<open>Names that are not inherited\<close>



subsection \<open>Stacks that can be drawn\<close>



subsection \<open>Tiles that need no redraw\<close>

text \<open>
  For one source of \<open>_coordsDescendingInvStr\<close>, a tile is unchanged when the key of its
  contributing coordinates is the one recorded on the tile at its last rendering (or is
  missing or empty), and the terrain does not ask for the tile to be rendered again.
\<close>

definition unchanged :: "Terrain \<Rightarrow> string \<times> string obj \<Rightarrow> Tile \<Rightarrow> bool" where
  "unchanged terrain entry tile =
     (\<not> changed (read (snd entry) (key (tileID tile))) (tile_rttCoords tile (fst entry))
      \<and> \<not> needsRerender terrain (fst entry) (tileID tile))"


section \<open>Concrete frames\<close>

text \<open>
  A style with a fill layer on source \<open>v\<close> and a symbol layer on source \<open>p\<close>, over a
  terrain with the single tile \<open>k\<close> to which every visible coordinate contributes itself.
  Source \<open>v\<close> lists the coordinate \<open>b\<close> twice.
\<close>

definition harbour_style :: Style where
  "harbour_style =
     \<lparr>style_order = [''water'', ''labels''],
      style_layers =
        [(''water'', \<lparr>layerId = ''water'', layerType = Fill, layerSource = Some ''v''\<rparr>),
         (''labels'', \<lparr>layerId = ''labels'', layerType = Symbol, layerSource = Some ''p''\<rparr>)],
      style_sourceCaches =
        [(''v'', [\<lparr>key = ''b''\<rparr>, \<lparr>key = ''a''\<rparr>, \<lparr>key = ''b''\<rparr>]),
         (''p'', [\<lparr>key = ''a''\<rparr>])]\<rparr>"

definition single_terrain :: Terrain where
  "single_terrain =
     \<lparr>getTerrainCoords = (\<lambda>tileID. [(''k'', tileID)]),
      needsRerender = (\<lambda>source tileID. False),
      fboSize = 512\<rparr>"

definition harbour_painter :: Painter where
  "harbour_painter =
     \<lparr>painter_style = harbour_style, painter_terrain = single_terrain,
      currentLayer = 0, calls = []\<rparr>"

definition harbour_frame :: RenderToTexture where
  "harbour_frame = projr (initialize [] (constructor harbour_painter))"

text \<open>
  A style whose only layer, a line layer, is on a source named \<open>constructor\<close>, which
  has the visible coordinate \<open>a\<close>.
\<close>

definition relic_style :: Style where
  "relic_style =
     \<lparr>style_order = [''roads''],
      style_layers =
        [(''roads'', \<lparr>layerId = ''roads'', layerType = Line, layerSource = Some ''constructor''\<rparr>)],
      style_sourceCaches = [(''constructor'', [\<lparr>key = ''a''\<rparr>])]\<rparr>"

definition relic_painter :: Painter where
  "relic_painter =
     \<lparr>painter_style = relic_style, painter_terrain = single_terrain,
      currentLayer = 0, calls = []\<rparr>"

definition relic_frame :: RenderToTexture where
  "relic_frame = projr (initialize [] (constructor relic_painter))"


text \<open>
  A style with the single fill layer \<open>water\<close> on source \<open>v\<close>, whose one visible
  coordinate \<open>a\<close> contributes to the one renderable tile \<open>k\<close>. The tile starts with no
  surface. \<open>lagoon_start\<close> is the compositor after \<open>initialize\<close> on the first frame and
  \<open>lagoon_first\<close> after \<open>renderLayer\<close> for the only layer; the second frame starts from
  the tiles the first one left, with an empty call log, and nothing about the style, the
  visible coordinates or the terrain has changed.
\<close>

definition water_layer :: StyleLayer where
  "water_layer = \<lparr>layerId = ''water'', layerType = Fill, layerSource = Some ''v''\<rparr>"

definition lagoon_style :: Style where
  "lagoon_style =
     \<lparr>style_order = [''water''],
      style_layers = [(''water'', water_layer)],
      style_sourceCaches = [(''v'', [\<lparr>key = ''a''\<rparr>])]\<rparr>"

definition lagoon_painter :: Painter where
  "lagoon_painter =
     \<lparr>painter_style = lagoon_style, painter_terrain = single_terrain,
      currentLayer = 0, calls = []\<rparr>"

definition lagoon_tile :: Tile where
  "lagoon_tile = \<lparr>tileID = \<lparr>key = ''k''\<rparr>, tile_rttFBOs = [], tile_rttCoords = Map.empty\<rparr>"

definition lagoon_start :: RenderToTexture where
  "lagoon_start = projr (initialize [lagoon_tile] (constructor lagoon_painter))"

definition lagoon_first :: RenderToTexture where
  "lagoon_first = snd (projr (renderLayer water_layer lagoon_start))"

definition lagoon_second_start :: RenderToTexture where
  "lagoon_second_start =
     projr (initialize (renderableTiles lagoon_first)
       (lagoon_first\<lparr>painter := (painter lagoon_first)\<lparr>calls := []\<rparr>\<rparr>))"

definition lagoon_second :: RenderToTexture where
  "lagoon_second = snd (projr (renderLayer water_layer lagoon_second_start))"

text \<open>
  A style with the layer order background, fill, symbol, fill, hillshade, over a terrain
  with the renderable tiles \<open>k\<close> and \<open>m\<close>, to each of which every visible coordinate
  contributes itself. \<open>ridge_start\<close> is the compositor after \<open>initialize\<close>, and
  \<open>ridge_run\<close> what the draw loop returns from there.
\<close>

definition ridge_layers :: "StyleLayer list" where
  "ridge_layers =
     [\<lparr>layerId = ''land'', layerType = Background, layerSource = None\<rparr>,
      \<lparr>layerId = ''water'', layerType = Fill, layerSource = Some ''v''\<rparr>,
      \<lparr>layerId = ''labels'', layerType = Symbol, layerSource = Some ''v''\<rparr>,
      \<lparr>layerId = ''parks'', layerType = Fill, layerSource = Some ''v''\<rparr>,
      \<lparr>layerId = ''relief'', layerType = Hillshade, layerSource = Some ''dem''\<rparr>]"

definition ridge_style :: Style where
  "ridge_style =
     \<lparr>style_order = map layerId ridge_layers,
      style_layers = map (\<lambda>layer. (layerId layer, layer)) ridge_layers,
      style_sourceCaches = [(''v'', [\<lparr>key = ''a''\<rparr>]), (''dem'', [\<lparr>key = ''d''\<rparr>])]\<rparr>"

definition twin_terrain :: Terrain where
  "twin_terrain =
     \<lparr>getTerrainCoords = (\<lambda>tileID. [(''k'', tileID), (''m'', tileID)]),
      needsRerender = (\<lambda>source tileID. False),
      fboSize = 512\<rparr>"

definition ridge_painter :: Painter where
  "ridge_painter =
     \<lparr>painter_style = ridge_style, painter_terrain = twin_terrain,
      currentLayer = 0, calls = []\<rparr>"

definition ridge_tiles :: "Tile list" where
  "ridge_tiles =
     [\<lparr>tileID = \<lparr>key = ''k''\<rparr>, tile_rttFBOs = [], tile_rttCoords = Map.empty\<rparr>,
      \<lparr>tileID = \<lparr>key = ''m''\<rparr>, tile_rttFBOs = [], tile_rttCoords = Map.empty\<rparr>]"

definition ridge_start :: RenderToTexture where
  "ridge_start = projr (initialize ridge_tiles (constructor ridge_painter))"

definition ridge_run :: "bool list \<times> RenderToTexture" where
  "ridge_run = projr (drawOrder ridge_layers 0 ridge_start)"





section \<open>The render loop of the map\<close>

subsection \<open>Data\<close>

text \<open>
  The crossfade factor is a JavaScript number, of which the loop only asks whether two
  are \<open>!==\<close>: two numbers are unless they are equal, and \<open>NaN\<close> is to everything.
\<close>

datatype number = Num real | NaN

fun strict_neq :: "number \<Rightarrow> number \<Rightarrow> bool" where
  "strict_neq (Num x) (Num y) = (x \<noteq> y)"
| "strict_neq _ _ = True"

text \<open>
  The fields of the map that the render loop reads and writes, each under its name
  without the leading underscore (\<open>loadedFlag\<close> is \<open>_loaded\<close>, beside the method
  \<open>loaded\<close>). A flag holds the truthiness of the field. \<open>style\<close> and \<open>handlers\<close> say
  whether the field is set. \<open>frame\<close> is the handle of \<open>browser.frame\<close>.

  The last five fields are not fields of the map. \<open>scheduled\<close> are the handles of the
  frame callbacks outstanding in the host, oldest first, and \<open>nextHandle\<close> the next handle
  the host gives out. \<open>fired\<close> are the types of the events that \<open>_render\<close> and
  \<open>remove\<close> fire, \<open>painted\<close> counts the calls of \<open>painter.render\<close>, and \<open>rendered\<close>
  the calls of \<open>_render\<close>.
\<close>

record Map =
  style :: bool
  handlers :: bool
  frame :: "nat option"
  styleDirty :: bool
  sourcesDirty :: bool
  placementDirty :: bool
  repaint :: bool
  loadedFlag :: bool
  fullyLoaded :: bool
  crossFadingFactor :: number
  removed :: bool
  moving :: bool
  zooming :: bool
  rotating :: bool
  scheduled :: "nat list"
  nextHandle :: nat
  fired :: "string list"
  painted :: nat
  rendered :: nat

text \<open>
  Code outside the map runs inside a frame: the callbacks of the render task queue, the
  listeners of the events the map fires, and the events the style fires synchronously
  while it updates. Of what such code may do, the model has the calls that ask for a
  repaint. The callbacks of the task queue, and those the host runs between frames (a
  finished request, say), can also remove the map and set, replace or delete its style:
  \<open>UpdateStyle\<close> is \<open>_updateStyle\<close>, which \<open>setStyle\<close> and a style diff that fails
  reach, with or without a style given, and \<open>LazyInitEmptyStyle\<close> is
  \<open>_lazyInitEmptyStyle\<close>, with which \<open>addSource\<close>, \<open>addLayer\<close> and others begin.
\<close>

datatype repaint_call = Update bool | TriggerRepaint

datatype api_call = Mark repaint_call | Remove | UpdateStyle bool | LazyInitEmptyStyle

text \<open>
  What the collaborators answer during one frame, in the order \<open>_render\<close> asks:
  the task queue, \<open>crossFadingFactor()\<close>, \<open>style.update\<close>, \<open>style._updateSources\<close>,
  \<open>style._updatePlacement\<close>, the listeners of \<open>render\<close>, \<open>style.loaded()\<close>, the listeners
  of \<open>load\<close>, \<open>style.hasTransitions()\<close>, the gesture handlers, the listeners of \<open>idle\<close>.
\<close>

record frame_env =
  tasks :: "api_call list"
  factor :: number
  onStyleUpdate :: "repaint_call list"
  onUpdateSources :: "repaint_call list"
  updatePlacement :: bool
  onRender :: "repaint_call list"
  styleLoaded :: bool
  onLoad :: "repaint_call list"
  hasTransitions :: bool
  handlersRotating :: bool
  handlersZooming :: bool
  handlersMoving :: bool
  onIdle :: "repaint_call list"

text \<open>
  An exception leaves the map as it was when it was raised: the error case of a result
  carries that state.
\<close>

type_synonym outcome = "(error \<times> Map) + Map"


subsection \<open>Requesting a frame\<close>

definition triggerRepaint :: "Map \<Rightarrow> Map" where
  "triggerRepaint m =
     (if style m \<and> frame m = None
      then m\<lparr>frame := Some (nextHandle m),
             scheduled := scheduled m @ [nextHandle m],
             nextHandle := Suc (nextHandle m)\<rparr>
      else m)"

text \<open>\<open>_update(updateStyle)\<close>; an omitted argument is falsy.\<close>

definition update :: "bool \<Rightarrow> Map \<Rightarrow> Map" where
  "update updateStyle m =
     (if \<not> style m then m
      else triggerRepaint (m\<lparr>styleDirty := styleDirty m \<or> updateStyle, sourcesDirty := True\<rparr>))"

text \<open>\<open>if (this._frame) { this._frame.cancel(); this._frame = null; }\<close>\<close>

definition cancelFrame :: "Map \<Rightarrow> Map" where
  "cancelFrame m =
     (case frame m of
        None \<Rightarrow> m
      | Some h \<Rightarrow> m\<lparr>scheduled := removeAll h (scheduled m), frame := None\<rparr>)"


subsection \<open>Setting the style\<close>

text \<open>
  \<open>_updateStyle(style, options)\<close> deletes the style if none is given and puts a new
  \<open>Style\<close> in its place otherwise; \<open>_lazyInitEmptyStyle\<close> makes an empty style if the
  map has none. How the style loads, and the events it fires while it does, are outside
  the model.
\<close>

definition updateStyle :: "bool \<Rightarrow> Map \<Rightarrow> Map" where
  "updateStyle given m = m\<lparr>style := given\<rparr>"

definition lazyInitEmptyStyle :: "Map \<Rightarrow> Map" where
  "lazyInitEmptyStyle m = (if style m then m else m\<lparr>style := True\<rparr>)"


subsection \<open>Calls from outside, events\<close>

fun mark :: "repaint_call \<Rightarrow> Map \<Rightarrow> Map" where
  "mark (Update b) m = update b m"
| "mark TriggerRepaint m = triggerRepaint m"

definition listeners :: "repaint_call list \<Rightarrow> Map \<Rightarrow> Map" where
  "listeners cs m = fold mark cs m"

definition fire :: "string \<Rightarrow> repaint_call list \<Rightarrow> Map \<Rightarrow> Map" where
  "fire type cs m = listeners cs (m\<lparr>fired := fired m @ [type]\<rparr>)"

text \<open>
  \<open>remove\<close>. The hash, the controls, the painter, the DOM and the WebGL context are
  outside the model, and so is \<open>_renderTaskQueue.clear()\<close>: what the task queue does in
  a frame is an input of that frame. \<open>this.handlers.destroy()\<close> raises once \<open>handlers\<close>
  has been deleted, which is after the frame was cancelled. \<open>setStyle(null)\<close> reaches
  \<open>_updateStyle\<close> with no style. The listeners of \<open>remove\<close> make no calls in the
  model.
\<close>

definition remove :: "Map \<Rightarrow> outcome" where
  "remove m =
     (let m1 = cancelFrame m
      in if \<not> handlers m1 then Inl (TypeError, m1)
         else (let m2 = m1\<lparr>handlers := False\<rparr>;
                   m3 = updateStyle False m2;
                   m4 = m3\<lparr>removed := True\<rparr>
               in Inr (fire ''remove'' [] m4)))"

fun api :: "api_call \<Rightarrow> Map \<Rightarrow> outcome" where
  "api (Mark c) m = Inr (mark c m)"
| "api Remove m = remove m"
| "api (UpdateStyle given) m = Inr (updateStyle given m)"
| "api LazyInitEmptyStyle m = Inr (lazyInitEmptyStyle m)"

text \<open>A sequence of calls made by one callback: the first exception ends it.\<close>

fun calls_from :: "api_call list \<Rightarrow> Map \<Rightarrow> outcome" where
  "calls_from [] m = Inr m"
| "calls_from (c # cs) m =
     (case api c m of Inl e \<Rightarrow> Inl e | Inr m1 \<Rightarrow> calls_from cs m1)"


subsection \<open>The frame\<close>

text \<open>\<open>isRotating\<close>, \<open>isZooming\<close>, \<open>isMoving\<close>: \<open>this._moving || this.handlers.isMoving()\<close>.\<close>

definition isRotating :: "frame_env \<Rightarrow> Map \<Rightarrow> error + bool" where
  "isRotating env m =
     (if rotating m then Inr True
      else if handlers m then Inr (handlersRotating env) else Inl TypeError)"

definition isZooming :: "frame_env \<Rightarrow> Map \<Rightarrow> error + bool" where
  "isZooming env m =
     (if zooming m then Inr True
      else if handlers m then Inr (handlersZooming env) else Inl TypeError)"

definition isMoving :: "frame_env \<Rightarrow> Map \<Rightarrow> error + bool" where
  "isMoving env m =
     (if moving m then Inr True
      else if handlers m then Inr (handlersMoving env) else Inl TypeError)"

definition loaded :: "frame_env \<Rightarrow> Map \<Rightarrow> bool" where
  "loaded env m = (\<not> styleDirty m \<and> \<not> sourcesDirty m \<and> style m \<and> styleLoaded env)"

text \<open>
  The block \<open>if (this.style && this._styleDirty)\<close>. It returns the local \<open>crossFading\<close>
  with the map.
\<close>

definition evaluateStyle :: "frame_env \<Rightarrow> Map \<Rightarrow> bool \<times> Map" where
  "evaluateStyle env m =
     (if style m \<and> styleDirty m
      then (let m1 = m\<lparr>styleDirty := False\<rparr>;
                crossFading = (strict_neq (factor env) (Num 1)
                               \<or> strict_neq (factor env) (crossFadingFactor m1));
                m2 = (if crossFading then m1\<lparr>crossFadingFactor := factor env\<rparr> else m1)
            in (crossFading, listeners (onStyleUpdate env) m2))
      else (False, m))"

text \<open>The block \<open>if (this.style && this._sourcesDirty)\<close>.\<close>

definition updateSources :: "frame_env \<Rightarrow> Map \<Rightarrow> Map" where
  "updateSources env m =
     (if style m \<and> sourcesDirty m
      then listeners (onUpdateSources env) (m\<lparr>sourcesDirty := False\<rparr>)
      else m)"

text \<open>
  \<open>this.painter.render(this.style, {...})\<close>: the options are evaluated first, in the
  order they are written.
\<close>

definition paint :: "frame_env \<Rightarrow> Map \<Rightarrow> outcome" where
  "paint env m =
     (case isRotating env m of
        Inl e \<Rightarrow> Inl (e, m)
      | Inr _ \<Rightarrow>
          (case isZooming env m of
             Inl e \<Rightarrow> Inl (e, m)
           | Inr _ \<Rightarrow>
               (case isMoving env m of
                  Inl e \<Rightarrow> Inl (e, m)
                | Inr _ \<Rightarrow> Inr (m\<lparr>painted := Suc (painted m)\<rparr>))))"

text \<open>
  \<open>_render\<close> from the style block to the release of the symbol fade tiles: all of the
  frame before the decision to schedule another. Reading \<open>this.style.terrain\<close> raises
  without a style. The timer queries and the release of the fade tiles are outside the
  model. \<open>style.loaded()\<close> answers the same each time it is asked within the frame.
\<close>

definition frameBody :: "frame_env \<Rightarrow> Map \<Rightarrow> outcome" where
  "frameBody env m =
     (let styled = evaluateStyle env m;
          crossFading = fst styled;
          m2 = updateSources env (snd styled)
      in if \<not> style m2 then Inl (TypeError, m2)
         else (let m3 = m2\<lparr>placementDirty := updatePlacement env\<rparr>
               in case paint env m3 of
                    Inl e \<Rightarrow> Inl e
                  | Inr m4 \<Rightarrow>
                      (let m5 = fire ''render'' (onRender env) m4;
                           m6 = (if loaded env m5 \<and> \<not> loadedFlag m5
                                 then fire ''load'' (onLoad env) (m5\<lparr>loadedFlag := True\<rparr>)
                                 else m5)
                       in Inr (if style m6 \<and> (hasTransitions env \<or> crossFading)
                               then m6\<lparr>styleDirty := True\<rparr> else m6))))"

text \<open>The end of \<open>_render\<close>, from \<open>const somethingDirty\<close>.\<close>

definition somethingDirty :: "Map \<Rightarrow> bool" where
  "somethingDirty m = (sourcesDirty m \<or> styleDirty m \<or> placementDirty m)"

definition scheduleNext :: "frame_env \<Rightarrow> Map \<Rightarrow> outcome" where
  "scheduleNext env m =
     (let dirty = somethingDirty m
      in case (if dirty \<or> repaint m then Inr (triggerRepaint m)
               else (case isMoving env m of
                       Inl e \<Rightarrow> Inl (e, m)
                     | Inr mv \<Rightarrow>
                         if \<not> mv \<and> loaded env m then Inr (fire ''idle'' (onIdle env) m)
                         else Inr m)) of
           Inl e \<Rightarrow> Inl e
         | Inr m1 \<Rightarrow>
             Inr (if loadedFlag m1 \<and> \<not> fullyLoaded m1 \<and> \<not> dirty
                  then m1\<lparr>fullyLoaded := True\<rparr> else m1))"

text \<open>\<open>_render\<close> after the \<open>_removed\<close> guard.\<close>

definition pipeline :: "frame_env \<Rightarrow> Map \<Rightarrow> outcome" where
  "pipeline env m =
     (case frameBody env m of Inl e \<Rightarrow> Inl e | Inr m1 \<Rightarrow> scheduleNext env m1)"

text \<open>
  \<open>_render\<close>: the task queue is run, and a map removed by one of its callbacks is left as
  it is.
\<close>

definition render :: "frame_env \<Rightarrow> Map \<Rightarrow> outcome" where
  "render env m =
     (case calls_from (tasks env) (m\<lparr>rendered := Suc (rendered m)\<rparr>) of
        Inl e \<Rightarrow> Inl e
      | Inr m1 \<Rightarrow> if removed m1 then Inr m1 else pipeline env m1)"

definition redraw :: "frame_env \<Rightarrow> Map \<Rightarrow> outcome" where
  "redraw env m = (if style m then render env (cancelFrame m) else Inr m)"


subsection \<open>The host\<close>

text \<open>
  Modelled from the spec: \<open>browser.frame\<close>, which is not among the sources, requests "a
  future frame callback" and answers with "an opaque cancelable handle". In the model
  the host keeps the handles of the callbacks it has been asked for, \<open>cancel\<close> removes
  the handle, and an animation tick runs the callbacks that are outstanding.

  The callback \<open>triggerRepaint\<close> hands to \<open>browser.frame\<close> clears \<open>_frame\<close> and calls
  \<open>_render\<close>. The host reports an exception that a callback does not catch and goes on
  with the map as the callback left it.
\<close>

definition frameCallback :: "frame_env \<Rightarrow> Map \<Rightarrow> outcome" where
  "frameCallback env m = render env (m\<lparr>frame := None\<rparr>)"

definition settle :: "outcome \<Rightarrow> Map" where
  "settle r = (case r of Inl (e, m) \<Rightarrow> m | Inr m \<Rightarrow> m)"

text \<open>
  An animation tick runs the callbacks that were outstanding when it began, unless one
  has been cancelled meanwhile.
\<close>

fun runCallbacks :: "frame_env \<Rightarrow> nat list \<Rightarrow> Map \<Rightarrow> Map" where
  "runCallbacks env [] m = m"
| "runCallbacks env (h # hs) m =
     runCallbacks env hs
       (if h \<in> set (scheduled m)
        then settle (frameCallback env (m\<lparr>scheduled := removeAll h (scheduled m)\<rparr>))
        else m)"

definition tick :: "frame_env \<Rightarrow> Map \<Rightarrow> Map" where
  "tick env m = runCallbacks env (scheduled m) m"

text \<open>
  What can happen to a map, one turn of the host at a time: an animation tick, a callback
  that makes calls (a finished load, say), a call of \<open>redraw\<close>, and a call of \<open>_render\<close>
  by a frame callback that outlived its handle.
\<close>

datatype host_turn = Tick frame_env | Callback "api_call list" | Redraw frame_env | Render frame_env

fun turn :: "host_turn \<Rightarrow> Map \<Rightarrow> Map" where
  "turn (Tick env) m = tick env m"
| "turn (Callback cs) m = settle (calls_from cs m)"
| "turn (Redraw env) m = settle (redraw env m)"
| "turn (Render env) m = settle (render env m)"

definition turns :: "host_turn list \<Rightarrow> Map \<Rightarrow> Map" where
  "turns ts m = fold turn ts m"

text \<open>At most one frame is outstanding, and it is the one \<open>_frame\<close> holds.\<close>

definition sched_inv :: "Map \<Rightarrow> bool" where
  "sched_inv m = (scheduled m = (case frame m of None \<Rightarrow> [] | Some h \<Rightarrow> [h]))"

text \<open>What a request for a repaint leaves alone: everything but the dirty flags of style
  and sources, the frame handle and the host's queue.\<close>

definition core ::
  "Map \<Rightarrow> (bool \<times> bool \<times> bool \<times> string list \<times> nat \<times> nat \<times> number)
     \<times> (bool \<times> bool \<times> bool \<times> bool \<times> bool \<times> bool \<times> bool)" where
  "core m =
     ((style m, handlers m, removed m, fired m, painted m, rendered m, crossFadingFactor m),
      (loadedFlag m, fullyLoaded m, placementDirty m, repaint m, moving m, zooming m,
       rotating m))"

text \<open>A listener that does not ask for the style to be reprocessed.\<close>

definition keeps_style :: "repaint_call list \<Rightarrow> bool" where
  "keeps_style cs = (Update True \<notin> set cs)"


text \<open>
  A turn of the host that does not itself call \<open>_render\<close>: an animation tick, which runs
  the frame callbacks that were requested and no other, and a callback.
\<close>

fun passive_turn :: "host_turn \<Rightarrow> bool" where
  "passive_turn (Tick env) = True"
| "passive_turn (Callback cs) = True"
| "passive_turn (Redraw env) = False"
| "passive_turn (Render env) = False"

text \<open>How many times \<open>idle\<close> has been fired.\<close>

definition idles :: "Map \<Rightarrow> nat" where
  "idles m = count_list (fired m) ''idle''"

subsection \<open>Concrete maps and frames\<close>

text \<open>
  \<open>still_map\<close> has a style, nothing dirty, no frame scheduled and a stored crossfade
  factor of 1. \<open>pending_map\<close> is the same with the frame of handle 0 outstanding. In
  \<open>loading_env\<close> nothing outside the map asks for anything, nothing moves, and the style
  reports that it has not loaded; in \<open>ready_env\<close> it has. In \<open>fading_env\<close> the crossfade
  factor computed is one half.
\<close>

definition still_map :: Map where
  "still_map =
     \<lparr>style = True, handlers = True, frame = None, styleDirty = False,
      sourcesDirty = False, placementDirty = False, repaint = False, loadedFlag = False,
      fullyLoaded = False, crossFadingFactor = Num 1, removed = False, moving = False,
      zooming = False, rotating = False, scheduled = [], nextHandle = 1, fired = [],
      painted = 0, rendered = 0\<rparr>"

definition pending_map :: Map where
  "pending_map = still_map\<lparr>frame := Some 0, scheduled := [0]\<rparr>"

definition loading_env :: frame_env where
  "loading_env =
     \<lparr>tasks = [], factor = Num 1, onStyleUpdate = [], onUpdateSources = [],
      updatePlacement = False, onRender = [], styleLoaded = False, onLoad = [],
      hasTransitions = False, handlersRotating = False, handlersZooming = False,
      handlersMoving = False, onIdle = []\<rparr>"

definition ready_env :: frame_env where
  "ready_env = loading_env\<lparr>styleLoaded := True\<rparr>"

definition fading_env :: frame_env where
  "fading_env = ready_env\<lparr>factor := Num (1 / 2)\<rparr>"

text \<open>
  \<open>restyled_map\<close> is \<open>still_map\<close> with the style marked dirty, \<open>repainting_map\<close> has
  continuous repaint switched on, \<open>bare_map\<close> has no style, and \<open>removed_map\<close> is what
  \<open>remove\<close> makes of \<open>pending_map\<close>. \<open>idle_map\<close> is \<open>still_map\<close> after the frame in
  \<open>ready_env\<close>.
\<close>

definition restyled_map :: Map where
  "restyled_map = still_map\<lparr>styleDirty := True\<rparr>"

definition repainting_map :: Map where
  "repainting_map = still_map\<lparr>repaint := True\<rparr>"

definition bare_map :: Map where
  "bare_map = still_map\<lparr>style := False\<rparr>"

definition idle_map :: Map where
  "idle_map =
     still_map\<lparr>loadedFlag := True, fullyLoaded := True,
       fired := [''render'', ''load'', ''idle''], painted := 1\<rparr>"

definition removed_map :: Map where
  "removed_map =
     still_map\<lparr>style := False, handlers := False, removed := True, fired := [''remove'']\<rparr>"

text \<open>
  \<open>panning_map\<close> is \<open>pending_map\<close> in the middle of a camera movement, and
  \<open>abandoned_map\<close> what \<open>remove\<close> makes of it. \<open>late_turns\<close> is what may still arrive
  afterwards: a style request that finishes and sets a style, an animation tick, a
  callback that adds to the style, asks for a repaint and removes the map once more, a
  call of \<open>redraw\<close> and a call of \<open>_render\<close>.
\<close>

definition panning_map :: Map where
  "panning_map = pending_map\<lparr>moving := True, zooming := True, rotating := True\<rparr>"

definition abandoned_map :: Map where
  "abandoned_map =
     still_map\<lparr>style := False, handlers := False, removed := True, moving := True,
       zooming := True, rotating := True, fired := [''remove'']\<rparr>"

definition late_turns :: "host_turn list" where
  "late_turns =
     [Callback [UpdateStyle True, Mark (Update True)], Tick ready_env,
      Callback [LazyInitEmptyStyle, Mark TriggerRepaint, Remove],
      Redraw ready_env, Render ready_env]"


section \<open>Properties of the surface pool\<close>

lemma firstFree_None:
  "firstFree used i n = None \<Longrightarrow> \<forall>j. i \<le> j \<and> j < i + n \<longrightarrow> truthy_flag (array_get used j)"
proof (induction n arbitrary: i)
  case 0
  show ?case by auto
next
  case (Suc n)
  from Suc.prems have here: "truthy_flag (array_get used i)"
    and rest: "firstFree used (Suc i) n = None"
    by (auto split: if_splits)
  show ?case
  proof (intro allI impI)
    fix j
    assume j: "i \<le> j \<and> j < i + Suc n"
    show "truthy_flag (array_get used j)"
    proof (cases "j = i")
      case True
      with here show ?thesis by simp
    next
      case False
      with j have "Suc i \<le> j \<and> j < Suc i + n" by arith
      with Suc.IH [OF rest] show ?thesis by blast
    qed
  qed
qed


lemma array_get_set_same: "array_get (array_set xs i v) i = Some v"
  by (simp add: array_get_def array_set_def)



section \<open>The CompositeKey computed by initialize\<close>

lemma map_of_obj_set: "map_of (obj_set k v al) k' = (if k' = k then Some v else map_of al k')"
  by (induction al) auto

lemma read_cases:
  "read al k = Own v \<longleftrightarrow> map_of al k = Some v"
  "read al k = Inherited \<longleftrightarrow> map_of al k = None \<and> inherited k"
  "read al k = Undefined \<longleftrightarrow> map_of al k = None \<and> \<not> inherited k"
  by (auto simp: read_def split: option.splits)

lemma fillCoordsDescendingInvStr_lookup:
  "fillCoordsDescendingInvStr layers cinv ids str = Inr str' \<Longrightarrow>
   map_of str' src =
     (case map_of str src of
        Some m \<Rightarrow> Some m
      | None \<Rightarrow> if src \<in> set (List.map_filter (compositableSource layers) ids) \<and> \<not> inherited src
                then Some (serialized cinv src) else None)"
proof (induction ids arbitrary: str)
  case Nil
  then show ?case by (simp add: map_filter_simps split: option.splits)
next
  case (Cons lid ids)
  show ?case
  proof (cases "read layers lid")
    case Undefined
    with Cons.prems show ?thesis by simp
  next
    case Inherited
    then have none: "compositableSource layers lid = None"
      by (simp add: compositableSource_def read_cases)
    from Cons.prems Inherited
    have "fillCoordsDescendingInvStr layers cinv ids str = Inr str'" by simp
    from Cons.IH [OF this] none show ?thesis
      by (auto simp: map_filter_simps split: option.splits)
  next
    case (Own layer)
    then have layer: "map_of layers lid = Some layer" by (simp add: read_cases)
    let ?source = "prop_key (layerSource layer)"
    have here: "compositableSource layers lid =
       (if renderToTexture (layerType layer) then Some ?source else None)"
      using layer by (simp add: compositableSource_def)
    show ?thesis
    proof (cases "renderToTexture (layerType layer) \<and> read str ?source = Undefined")
      case True
      then have fresh: "map_of str ?source = None" "\<not> inherited ?source"
        by (simp_all add: read_cases)
      from Cons.prems Own True
      have "fillCoordsDescendingInvStr layers cinv ids
              (obj_set ?source (serialized cinv ?source) str) = Inr str'"
        by (simp add: Let_def serialized_def)
      from Cons.IH [OF this] True fresh here show ?thesis
        by (auto simp: map_of_obj_set map_filter_simps split: option.splits)
    next
      case False
      with Cons.prems Own
      have "fillCoordsDescendingInvStr layers cinv ids str = Inr str'"
        by (auto simp: Let_def)
      from Cons.IH [OF this] False here show ?thesis
        by (auto simp: map_filter_simps read_cases split: option.splits)
    qed
  qed
qed

lemma map_of_serialized:
  "map_of (serialized cinv source) k =
     map_option compositeKey (case map_of cinv source of None \<Rightarrow> None | Some m \<Rightarrow> map_of m k)"
  by (auto simp: serialized_def map_of_map split: option.splits prod.splits)

lemma compositeKey_distinct:
  "distinct (map key cs) \<Longrightarrow> compositeKey cs = compositeKey_spec cs"
  by (simp add: compositeKey_def compositeKey_spec_def distinct_remdups_id)

lemma initialize_fields:
  "initialize tiles s = Inr s' \<Longrightarrow>
   painter s' = painter s
   \<and> fillCoordsDescendingInv (painter_style (painter s)) (painter_terrain (painter s))
       = Inr (coordsDescendingInv s')
   \<and> fillCoordsDescendingInvStr (style_layers (painter_style (painter s)))
        (coordsDescendingInv s') (style_order (painter_style (painter s))) []
       = Inr (coordsDescendingInvStr s')"
  by (auto simp: initialize_def Let_def split: sum.splits)

lemmas harbour_defs =
  harbour_frame_def initialize_def constructor_def harbour_painter_def harbour_style_def
  single_terrain_def fillCoordsDescendingInv_def collectTerrainCoords_def obj_push_def
  read_def inherited_def prototype_names_def Let_def prop_key_def compositeKey_def

lemma harbour_initialize: "initialize [] (constructor harbour_painter) = Inr harbour_frame"
  by (simp add: harbour_defs)

lemma harbour_coordsDescendingInv:
  "coordsDescendingInv harbour_frame =
     [(''v'', [(''k'', [\<lparr>key = ''b''\<rparr>, \<lparr>key = ''a''\<rparr>, \<lparr>key = ''b''\<rparr>])]),
      (''p'', [(''k'', [\<lparr>key = ''a''\<rparr>])])]"
  by (simp add: harbour_defs)

lemma harbour_coordsDescendingInvStr:
  "coordsDescendingInvStr harbour_frame = [(''v'', [(''k'', ''a,b,b'')])]"
  by (simp add: harbour_defs)

text \<open>
  C3, as stated, fails twice on the harbour frame. The key of source \<open>v\<close> for tile \<open>k\<close>
  is \<open>a,b,b\<close>, where the sorted, de-duplicated serialization of its contributing
  coordinates is \<open>a,b\<close>: the code sorts and joins and never removes duplicates. And
  source \<open>p\<close>, which only a symbol layer uses, has contributing coordinates and no key.
\<close>

theorem compositeKey_keeps_duplicates:
  "initialize [] (constructor harbour_painter) = Inr harbour_frame
   \<and> compositeKeyOf harbour_frame ''v'' ''k'' = Some ''a,b,b''
   \<and> map_option compositeKey_spec (contributing harbour_frame ''v'' ''k'') = Some ''a,b''
   \<and> contributing harbour_frame ''p'' ''k'' = Some [\<lparr>key = ''a''\<rparr>]
   \<and> compositeKeyOf harbour_frame ''p'' ''k'' = None"
  using harbour_initialize
  by (simp add: compositeKeyOf_def contributing_def compositeKey_spec_def
      harbour_coordsDescendingInv harbour_coordsDescendingInvStr)

text \<open>
  C3, amended. Take a style that enumerates no source cache as \<open>__proto__\<close>. After
  \<open>initialize\<close>, a source has an entry in \<open>_coordsDescendingInvStr\<close> exactly if it is
  the source of a layer of the layer order whose type is rendered to texture and its name
  is not one that \<open>Object.prototype\<close> defines. The key the entry has for a tile is the
  sorted, comma-joined string of the keys collected in \<open>_coordsDescendingInv\<close> for that
  source and tile, duplicates kept. Where the collected keys are distinct this is the
  de-duplicated serialization of the specification.
\<close>

theorem initialize_compositeKey:
  assumes "initialize tiles s = Inr s'"
    and "''__proto__'' \<notin> fst ` set (style_sourceCaches (painter_style (painter s)))"
  shows "(source \<in> set (compositableSources (painter_style (painter s))) \<and> \<not> inherited source \<longrightarrow>
            map_of (coordsDescendingInvStr s') source \<noteq> None
            \<and> compositeKeyOf s' source k = map_option compositeKey (contributing s' source k))
         \<and> (source \<notin> set (compositableSources (painter_style (painter s))) \<or> inherited source \<longrightarrow>
            map_of (coordsDescendingInvStr s') source = None)
         \<and> (\<forall>cs. contributing s' source k = Some cs \<and> distinct (map key cs) \<longrightarrow>
            compositeKey cs = compositeKey_spec cs)"
proof -
  note filled = initialize_fields [OF assms(1), THEN conjunct2, THEN conjunct2]
  from fillCoordsDescendingInvStr_lookup [OF filled, of source]
  have look: "map_of (coordsDescendingInvStr s') source =
     (if source \<in> set (compositableSources (painter_style (painter s))) \<and> \<not> inherited source
      then Some (serialized (coordsDescendingInv s') source) else None)"
    by (simp add: compositableSources_def)
  show ?thesis
    using look
    by (auto simp: compositeKeyOf_def contributing_def map_of_serialized compositeKey_distinct)
qed

lemma relic_initialize: "initialize [] (constructor relic_painter) = Inr relic_frame"
  by (simp add: relic_frame_def relic_painter_def relic_style_def harbour_defs)

lemma relic_tables:
  "coordsDescendingInv relic_frame = [(''constructor'', [(''k'', [\<lparr>key = ''a''\<rparr>])])]"
  "coordsDescendingInvStr relic_frame = []"
  by (simp_all add: relic_frame_def relic_painter_def relic_style_def harbour_defs)

theorem initialize_compositeKey_witness:
  "initialize [] (constructor harbour_painter) = Inr harbour_frame
   \<and> ''__proto__'' \<notin> fst ` set (style_sourceCaches (painter_style (painter (constructor harbour_painter))))
   \<and> ''v'' \<in> set (compositableSources (painter_style (painter (constructor harbour_painter))))
   \<and> \<not> inherited ''v''
   \<and> compositeKeyOf harbour_frame ''v'' ''k'' = Some ''a,b,b''
   \<and> ''p'' \<notin> set (compositableSources (painter_style (painter (constructor harbour_painter))))
   \<and> map_of (coordsDescendingInvStr harbour_frame) ''p'' = None
   \<and> contributing harbour_frame ''p'' ''k'' = Some [\<lparr>key = ''a''\<rparr>]
   \<and> distinct (map key [\<lparr>key = ''a''\<rparr>])
   \<and> compositeKey [\<lparr>key = ''a''\<rparr>] = compositeKey_spec [\<lparr>key = ''a''\<rparr>]
   \<and> initialize [] (constructor relic_painter) = Inr relic_frame
   \<and> ''__proto__'' \<notin> fst ` set (style_sourceCaches (painter_style (painter (constructor relic_painter))))
   \<and> ''constructor'' \<in> set (compositableSources (painter_style (painter (constructor relic_painter))))
   \<and> inherited ''constructor''
   \<and> contributing relic_frame ''constructor'' ''k'' = Some [\<lparr>key = ''a''\<rparr>]
   \<and> map_of (coordsDescendingInvStr relic_frame) ''constructor'' = None"
proof -
  have n: "''__proto__'' \<notin> fst ` set (style_sourceCaches (painter_style (painter (constructor harbour_painter))))"
    by (simp add: constructor_def harbour_painter_def harbour_style_def)
  have v: "''v'' \<in> set (compositableSources (painter_style (painter (constructor harbour_painter))))"
    by (simp add: compositableSources_def compositableSource_def map_filter_simps
        constructor_def harbour_painter_def harbour_style_def prop_key_def)
  have pv: "\<not> inherited ''v''"
    by (simp add: inherited_def prototype_names_def)
  have p: "''p'' \<notin> set (compositableSources (painter_style (painter (constructor harbour_painter))))"
    by (simp add: compositableSources_def compositableSource_def map_filter_simps
        constructor_def harbour_painter_def harbour_style_def prop_key_def)
  have c: "contributing harbour_frame ''p'' ''k'' = Some [\<lparr>key = ''a''\<rparr>]"
    by (simp add: contributing_def harbour_coordsDescendingInv)
  have cv: "map_option compositeKey (contributing harbour_frame ''v'' ''k'') = Some ''a,b,b''"
    by (simp add: contributing_def harbour_coordsDescendingInv compositeKey_def)
  have rn: "''__proto__'' \<notin> fst ` set (style_sourceCaches (painter_style (painter (constructor relic_painter))))"
    by (simp add: constructor_def relic_painter_def relic_style_def)
  have rc: "''constructor'' \<in> set (compositableSources (painter_style (painter (constructor relic_painter))))"
    by (simp add: compositableSources_def compositableSource_def map_filter_simps
        constructor_def relic_painter_def relic_style_def prop_key_def)
  have ri: "inherited ''constructor''"
    by (simp add: inherited_def prototype_names_def)
  have rk: "contributing relic_frame ''constructor'' ''k'' = Some [\<lparr>key = ''a''\<rparr>]"
    by (simp add: contributing_def relic_tables)
  from initialize_compositeKey [OF harbour_initialize n, of "''v''" "''k''"] v pv cv
  have 1: "compositeKeyOf harbour_frame ''v'' ''k'' = Some ''a,b,b''" by simp
  from initialize_compositeKey [OF harbour_initialize n, of "''p''" "''k''"] p c
  have 2: "map_of (coordsDescendingInvStr harbour_frame) ''p'' = None
           \<and> compositeKey [\<lparr>key = ''a''\<rparr>] = compositeKey_spec [\<lparr>key = ''a''\<rparr>]"
    by simp
  from initialize_compositeKey [OF relic_initialize rn, of "''constructor''" "''k''"] ri
  have 3: "map_of (coordsDescendingInvStr relic_frame) ''constructor'' = None"
    by simp
  from harbour_initialize n v pv p c 1 2 relic_initialize rn rc ri rk 3 show ?thesis by simp
qed


section \<open>Frames of the compositor\<close>

subsection \<open>What drawing leaves unchanged\<close>


































lemmas compositor_defs =
  initialize_def renderLayer_def rememberLayer_def flushStack_def renderHillshade_def
  flushTile_def hillshadeTile_def getFBO_def prepareFBO_def freeFBO_def log_call_def
  drawTerrain_def getTexture_def currentLayerId_def constructor_def
  fillCoordsDescendingInv_def collectTerrainCoords_def obj_push_def checkSource_def
  changed_def read_def inherited_def prototype_names_def markUsed_def compositeKey_def renderToTexture_prev_def atLayer_def
  array_get_def array_set_def truthy_index_def truthy_string_def truthy_flag_def
  prop_key_def Let_def

subsection \<open>Reuse of a cached surface\<close>

lemmas lagoon_defs =
  water_layer_def lagoon_style_def lagoon_painter_def lagoon_tile_def single_terrain_def

lemma lagoon_first_value:
  "lagoon_first =
     \<lparr>painter = lagoon_painter\<lparr>calls :=
        [PrepareFBO 0, RenderTileClippingMasks ''water'' (Some [\<lparr>key = ''a''\<rparr>]),
         RenderLayer ''water'' (Some [\<lparr>key = ''a''\<rparr>]), DrawTerrain [Some 0]]\<rparr>,
      rttFBOs = [\<lparr>fbo_width = 512, fbo_height = 512\<rparr>],
      rttTextures = [\<lparr>tex_width = 512, tex_height = 512\<rparr>],
      rttUsedFBOs = [],
      coordsDescendingInv = [(''v'', [(''k'', [\<lparr>key = ''a''\<rparr>])])],
      coordsDescendingInvStr = [(''v'', [(''k'', ''a'')])],
      stacks = [[Some ''water'']],
      prevType = Some Fill,
      renderableTiles =
        [lagoon_tile\<lparr>tile_rttFBOs := [Some 0], tile_rttCoords := [''v'' \<mapsto> ''a'']\<rparr>]\<rparr>"
  by (simp add: lagoon_first_def lagoon_start_def compositor_defs lagoon_defs)

lemma lagoon_second_start_value:
  "lagoon_second_start =
     lagoon_first\<lparr>painter := lagoon_painter, stacks := [], prevType := None,
        rttUsedFBOs := [Some True]\<rparr>"
  by (simp add: lagoon_second_start_def lagoon_first_value compositor_defs lagoon_defs)

lemma lagoon_second_value:
  "lagoon_second =
     \<lparr>painter = lagoon_painter\<lparr>calls :=
        [PrepareFBO 1, RenderTileClippingMasks ''water'' (Some [\<lparr>key = ''a''\<rparr>]),
         RenderLayer ''water'' (Some [\<lparr>key = ''a''\<rparr>]), DrawTerrain [Some 1]]\<rparr>,
      rttFBOs = [\<lparr>fbo_width = 512, fbo_height = 512\<rparr>, \<lparr>fbo_width = 512, fbo_height = 512\<rparr>],
      rttTextures =
        [\<lparr>tex_width = 512, tex_height = 512\<rparr>, \<lparr>tex_width = 512, tex_height = 512\<rparr>],
      rttUsedFBOs = [Some True],
      coordsDescendingInv = [(''v'', [(''k'', [\<lparr>key = ''a''\<rparr>])])],
      coordsDescendingInvStr = [(''v'', [(''k'', ''a'')])],
      stacks = [[Some ''water'']],
      prevType = Some Fill,
      renderableTiles =
        [lagoon_tile\<lparr>tile_rttFBOs := [Some 1], tile_rttCoords := [''v'' \<mapsto> ''a'']\<rparr>]\<rparr>"
  by (simp add: lagoon_second_def lagoon_second_start_value lagoon_first_value
      compositor_defs lagoon_defs)

text \<open>Neither frame raises, and \<open>renderLayer\<close> reports the layer as rendered to texture.\<close>

lemma lagoon_start_returns:
  "initialize [lagoon_tile] (constructor lagoon_painter) = Inr lagoon_start"
  by (simp add: lagoon_start_def compositor_defs lagoon_defs)

lemma lagoon_first_returns: "renderLayer water_layer lagoon_start = Inr (True, lagoon_first)"
  by (simp add: lagoon_start_def lagoon_first_def compositor_defs lagoon_defs)

lemma lagoon_second_start_returns:
  "initialize (renderableTiles lagoon_first)
     (lagoon_first\<lparr>painter := (painter lagoon_first)\<lparr>calls := []\<rparr>\<rparr>) = Inr lagoon_second_start"
  by (simp add: lagoon_second_start_def lagoon_first_value compositor_defs lagoon_defs)

lemma lagoon_second_returns:
  "renderLayer water_layer lagoon_second_start = Inr (True, lagoon_second)"
  by (simp add: lagoon_second_def lagoon_second_start_value lagoon_first_value
      compositor_defs lagoon_defs)

text \<open>
  \<open>initialize\<close> keeps the surfaces of the tiles that are unchanged for every source.
\<close>

lemma checkSource_unchanged: "unchanged terrain entry tile \<Longrightarrow> checkSource terrain entry tile = tile"
  by (auto simp: checkSource_def unchanged_def Let_def)

lemma fold_checkSource_unchanged:
  "\<forall>entry \<in> set str. unchanged terrain entry tile \<Longrightarrow> fold (checkSource terrain) str tile = tile"
  by (induction str) (simp_all add: checkSource_unchanged)

lemma checkTiles_unchanged:
  "\<forall>tile \<in> set tiles. \<forall>entry \<in> set str. unchanged terrain entry tile \<Longrightarrow>
   fst (checkTiles str terrain tiles used) = tiles"
  by (induction tiles arbitrary: used) (simp_all add: Let_def fold_checkSource_unchanged)

lemma initialize_keeps_surfaces:
  assumes "initialize tiles s = Inr s'"
    and "\<forall>tile \<in> set tiles. \<forall>entry \<in> set (coordsDescendingInvStr s').
           unchanged (painter_terrain (painter s)) entry tile"
  shows "renderableTiles s' = tiles"
proof -
  from assms(1) obtain str where
    str: "coordsDescendingInvStr s' = str"
    and tiles: "renderableTiles s' = fst (checkTiles str (painter_terrain (painter s)) tiles [])"
    by (auto simp: initialize_def Let_def split: sum.splits)
  from assms(2) str
  have "\<forall>tile \<in> set tiles. \<forall>entry \<in> set str. unchanged (painter_terrain (painter s)) entry tile"
    by simp
  from checkTiles_unchanged [OF this] tiles show ?thesis by simp
qed

text \<open>
  The flush skips a tile whose surface for the stack is truthy, which an index other than
  0 is.
\<close>

lemma flushTile_skips:
  "array_get (tile_rttFBOs tile) stack = Some (Suc n) \<Longrightarrow>
   flushTile stack layers tile s = Inr (tile, s)"
  by (simp add: flushTile_def truthy_index_def)

text \<open>
  C1. A tile whose keys and staleness flags are unchanged is to cause no draw call on the
  next frame. \<open>initialize\<close> does keep the surfaces of such a tile, and the flush does
  skip a tile that holds a surface other than surface 0. In the lagoon frames the first
  frame gives the tile surface 0 for stack 0 and records the key \<open>a\<close> for source \<open>v\<close>.
  On the second frame the key is the same and no source asks for a re-render, and
  \<open>initialize\<close> keeps the tile's assignment. The flush then tests
  \<open>tile.rttFBOs[stack]\<close> for truthiness, which surface index 0 fails: it claims surface
  1 and draws the layer again.
\<close>

theorem surface_zero_redrawn:
  "initialize [lagoon_tile] (constructor lagoon_painter) = Inr lagoon_start
   \<and> renderLayer water_layer lagoon_start = Inr (True, lagoon_first)
   \<and> tile_rttFBOs (hd (renderableTiles lagoon_first)) = [Some 0]
   \<and> initialize (renderableTiles lagoon_first)
        (lagoon_first\<lparr>painter := (painter lagoon_first)\<lparr>calls := []\<rparr>\<rparr>) = Inr lagoon_second_start
   \<and> tile_rttCoords (hd (renderableTiles lagoon_first)) ''v''
       = compositeKeyOf lagoon_second_start ''v'' ''k''
   \<and> \<not> needsRerender (painter_terrain (painter lagoon_second_start)) ''v'' \<lparr>key = ''k''\<rparr>
   \<and> tile_rttFBOs (hd (renderableTiles lagoon_second_start)) = [Some 0]
   \<and> calls (painter lagoon_second_start) = []
   \<and> renderLayer water_layer lagoon_second_start = Inr (True, lagoon_second)
   \<and> calls (painter lagoon_second) =
       [PrepareFBO 1, RenderTileClippingMasks ''water'' (Some [\<lparr>key = ''a''\<rparr>]),
        RenderLayer ''water'' (Some [\<lparr>key = ''a''\<rparr>]), DrawTerrain [Some 1]]"
  using lagoon_start_returns lagoon_first_returns lagoon_second_start_returns
    lagoon_second_returns
  by (simp add: lagoon_second_value lagoon_second_start_value lagoon_first_value
      compositeKeyOf_def lagoon_defs)

subsection \<open>The partition of the layer order into stacks\<close>

lemmas ridge_defs =
  ridge_layers_def ridge_style_def twin_terrain_def ridge_painter_def ridge_tiles_def

lemma ridge_initialize: "initialize ridge_tiles (constructor ridge_painter) = Inr ridge_start"
  by (simp add: ridge_start_def compositor_defs ridge_defs)

lemma ridge_drawOrder: "drawOrder ridge_layers 0 ridge_start = Inr ridge_run"
  by (simp add: ridge_run_def ridge_start_def compositor_defs ridge_defs)

lemma ridge_run_surfaces:
  "map tile_rttFBOs (renderableTiles (snd ridge_run))
     = [[Some 0, Some 1, Some 2], [Some 0, Some 1, Some 2]]"
  "length (rttFBOs (snd ridge_run)) = 3"
  by (simp_all add: ridge_run_def ridge_start_def compositor_defs ridge_defs)






subsection \<open>Drawing a well-formed style does not raise\<close>











subsection \<open>What initialize establishes\<close>




















subsection \<open>Surfaces claimed in a frame\<close>

lemma getFBO_found:
  assumes "firstFree (rttUsedFBOs s) 0 (length (rttFBOs s)) = Some i"
  shows "fst (getFBO s) = i" and "slot_in_use (snd (getFBO s)) i"
    and "rttFBOs (snd (getFBO s)) = rttFBOs s"
  using assms by (simp_all add: getFBO_def slot_in_use_def array_get_set_same truthy_flag_def)

lemma getFBO_created:
  assumes "firstFree (rttUsedFBOs s) 0 (length (rttFBOs s)) = None"
  shows "fst (getFBO s) = length (rttFBOs s)"
    and "\<forall>i < length (rttFBOs s). slot_in_use s i"
    and "rttUsedFBOs (snd (getFBO s)) = rttUsedFBOs s"
proof -
  from assms show "fst (getFBO s) = length (rttFBOs s)"
    and "rttUsedFBOs (snd (getFBO s)) = rttUsedFBOs s"
    by (simp_all add: getFBO_def Let_def)
  from firstFree_None [OF assms] show "\<forall>i < length (rttFBOs s). slot_in_use s i"
    by (simp add: slot_in_use_def)
qed

text \<open>
  C4. The search loop of \<open>getFBO\<close> marks the slot it returns, and a framebuffer is
  created only when every slot of the pool is in use. The branch that creates the
  framebuffer returns the new index and does not mark it. On the first frame of the ridge
  style the pool is empty: the first call creates slot 0 and leaves it free, the second
  call finds slot 0 free, marks it and returns it again; at the end of the frame the two
  tiles hold the same surface for every stack.
\<close>

theorem getFBO_twice_same_index:
  "initialize ridge_tiles (constructor ridge_painter) = Inr ridge_start
   \<and> rttFBOs ridge_start = []
   \<and> fst (getFBO ridge_start) = 0
   \<and> \<not> slot_in_use (snd (getFBO ridge_start)) 0
   \<and> fst (getFBO (snd (getFBO ridge_start))) = 0
   \<and> slot_in_use (snd (getFBO (snd (getFBO ridge_start)))) 0
   \<and> drawOrder ridge_layers 0 ridge_start = Inr ridge_run
   \<and> map tile_rttFBOs (renderableTiles (snd ridge_run))
       = [[Some 0, Some 1, Some 2], [Some 0, Some 1, Some 2]]"
proof -
  have "rttFBOs ridge_start = []" "rttUsedFBOs ridge_start = []"
    by (simp_all add: ridge_start_def compositor_defs ridge_defs)
  then show ?thesis
    using ridge_run_surfaces(1) ridge_initialize ridge_drawOrder
    by (simp add: getFBO_def slot_in_use_def array_get_def array_set_def truthy_flag_def Let_def)
qed


section \<open>The render loop: what each step changes\<close>

subsection \<open>Requests for a repaint\<close>

lemma core_triggerRepaint: "core (triggerRepaint m) = core m"
  by (simp add: core_def triggerRepaint_def)

lemma core_update: "core (update b m) = core m"
  by (simp add: update_def core_triggerRepaint) (simp add: core_def)

lemma core_mark: "core (mark c m) = core m"
  by (cases c) (simp_all add: core_update core_triggerRepaint)

lemma core_listeners: "core (listeners cs m) = core m"
  unfolding listeners_def by (induction cs arbitrary: m) (simp_all add: core_mark)

lemma sched_inv_triggerRepaint: "sched_inv m \<Longrightarrow> sched_inv (triggerRepaint m)"
  by (simp add: sched_inv_def triggerRepaint_def)

lemma sched_inv_update: "sched_inv m \<Longrightarrow> sched_inv (update b m)"
proof (cases "style m")
  case True
  assume "sched_inv m"
  then have "sched_inv (m\<lparr>styleDirty := styleDirty m \<or> b, sourcesDirty := True\<rparr>)"
    by (simp add: sched_inv_def)
  from sched_inv_triggerRepaint [OF this] True show ?thesis by (simp add: update_def)
next
  case False
  assume "sched_inv m"
  with False show ?thesis by (simp add: update_def)
qed

lemma sched_inv_mark: "sched_inv m \<Longrightarrow> sched_inv (mark c m)"
  by (cases c) (simp_all add: sched_inv_update sched_inv_triggerRepaint)

lemma sched_inv_listeners: "sched_inv m \<Longrightarrow> sched_inv (listeners cs m)"
  unfolding listeners_def by (induction cs arbitrary: m) (simp_all add: sched_inv_mark)

lemma sched_inv_fire: "sched_inv m \<Longrightarrow> sched_inv (fire t cs m)"
proof -
  assume "sched_inv m"
  then have "sched_inv (m\<lparr>fired := fired m @ [t]\<rparr>)" by (simp add: sched_inv_def)
  from sched_inv_listeners [OF this] show ?thesis by (simp add: fire_def)
qed

text \<open>While a frame is pending, no request changes the handle or the host's queue.\<close>

lemma pending_mark:
  "frame m \<noteq> None \<Longrightarrow>
   frame (mark c m) = frame m \<and> scheduled (mark c m) = scheduled m
   \<and> nextHandle (mark c m) = nextHandle m"
  by (cases c) (auto simp: update_def triggerRepaint_def)

lemma pending_listeners:
  "frame m \<noteq> None \<Longrightarrow>
   frame (listeners cs m) = frame m \<and> scheduled (listeners cs m) = scheduled m
   \<and> nextHandle (listeners cs m) = nextHandle m"
  unfolding listeners_def
proof (induction cs arbitrary: m)
  case Nil
  then show ?case by simp
next
  case (Cons c cs)
  from pending_mark [OF Cons.prems, of c] have "frame (mark c m) \<noteq> None"
    using Cons.prems by simp
  from Cons.IH [OF this] pending_mark [OF Cons.prems, of c] show ?case by simp
qed

text \<open>Without a style, a request does nothing.\<close>

lemma no_style_mark: "\<not> style m \<Longrightarrow> mark c m = m"
  by (cases c) (simp_all add: update_def triggerRepaint_def)

lemma no_style_listeners: "\<not> style m \<Longrightarrow> listeners cs m = m"
  unfolding listeners_def by (induction cs) (simp_all add: no_style_mark)

text \<open>The style-dirty flag under requests that do not ask for the style.\<close>

lemma keeps_style_mark: "c \<noteq> Update True \<Longrightarrow> styleDirty (mark c m) = styleDirty m"
proof (cases c)
  case (Update b)
  assume "c \<noteq> Update True"
  with Update have "\<not> b" by auto
  with Update show ?thesis by (simp add: update_def triggerRepaint_def)
next
  case TriggerRepaint
  then show ?thesis by (simp add: triggerRepaint_def)
qed

lemma keeps_style_listeners:
  "keeps_style cs \<Longrightarrow> styleDirty (listeners cs m) = styleDirty m"
proof (induction cs arbitrary: m)
  case Nil
  show ?case by (simp add: listeners_def)
next
  case (Cons c cs)
  from Cons.prems have c: "c \<noteq> Update True" and cs: "keeps_style cs"
    by (auto simp: keeps_style_def)
  have "styleDirty (listeners (c # cs) m) = styleDirty (listeners cs (mark c m))"
    by (simp add: listeners_def)
  also have "\<dots> = styleDirty (mark c m)" by (rule Cons.IH [OF cs])
  also have "\<dots> = styleDirty m" by (rule keeps_style_mark [OF c])
  finally show ?case .
qed

lemma core_fields:
  "core m' = core m \<Longrightarrow>
   style m' = style m \<and> handlers m' = handlers m \<and> removed m' = removed m
   \<and> fired m' = fired m \<and> painted m' = painted m \<and> rendered m' = rendered m
   \<and> crossFadingFactor m' = crossFadingFactor m \<and> loadedFlag m' = loadedFlag m
   \<and> fullyLoaded m' = fullyLoaded m \<and> placementDirty m' = placementDirty m
   \<and> repaint m' = repaint m \<and> moving m' = moving m \<and> zooming m' = zooming m
   \<and> rotating m' = rotating m"
  by (simp add: core_def)

lemmas listeners_keeps = core_fields [OF core_listeners]

lemmas triggerRepaint_keeps = core_fields [OF core_triggerRepaint]

lemma settle_simps: "settle (Inl (e, m)) = m" "settle (Inr m) = m"
  by (simp_all add: settle_def)

subsection \<open>At most one frame outstanding\<close>

lemma sched_inv_cancelFrame: "sched_inv m \<Longrightarrow> sched_inv (cancelFrame m)"
  by (auto simp: sched_inv_def cancelFrame_def split: option.splits)

lemma sched_inv_remove: "sched_inv m \<Longrightarrow> sched_inv (settle (remove m))"
proof -
  assume "sched_inv m"
  then have c: "sched_inv (cancelFrame m)" by (rule sched_inv_cancelFrame)
  show ?thesis
  proof (cases "handlers (cancelFrame m)")
    case False
    with c show ?thesis by (simp add: remove_def settle_simps)
  next
    case True
    have "sched_inv (fire ''remove'' []
        (cancelFrame m\<lparr>handlers := False, style := False, removed := True\<rparr>))"
      using c by (simp add: fire_def listeners_def sched_inv_def)
    with True show ?thesis by (simp add: remove_def settle_simps updateStyle_def)
  qed
qed

lemma sched_inv_style:
  "sched_inv (updateStyle given m) = sched_inv m"
  "sched_inv (lazyInitEmptyStyle m) = sched_inv m"
  by (simp_all add: sched_inv_def updateStyle_def lazyInitEmptyStyle_def)

lemma sched_inv_api: "sched_inv m \<Longrightarrow> sched_inv (settle (api c m))"
  by (cases c) (simp_all add: sched_inv_remove sched_inv_mark sched_inv_style settle_simps)

lemma sched_inv_calls_from: "sched_inv m \<Longrightarrow> sched_inv (settle (calls_from cs m))"
proof (induction cs arbitrary: m)
  case Nil
  then show ?case by (simp add: settle_simps)
next
  case (Cons c cs)
  from sched_inv_api [OF Cons.prems, of c] Cons.IH show ?case
    by (cases "api c m") (auto simp: settle_simps)
qed

lemma sched_inv_evaluateStyle: "sched_inv m \<Longrightarrow> sched_inv (snd (evaluateStyle env m))"
proof -
  assume inv: "sched_inv m"
  have "\<And>f. sched_inv (listeners (onStyleUpdate env) (m\<lparr>styleDirty := False, crossFadingFactor := f\<rparr>))"
    using inv by (intro sched_inv_listeners) (simp add: sched_inv_def)
  moreover have "sched_inv (listeners (onStyleUpdate env) (m\<lparr>styleDirty := False\<rparr>))"
    using inv by (intro sched_inv_listeners) (simp add: sched_inv_def)
  ultimately show ?thesis using inv by (simp add: evaluateStyle_def Let_def)
qed

lemma sched_inv_updateSources: "sched_inv m \<Longrightarrow> sched_inv (updateSources env m)"
proof -
  assume inv: "sched_inv m"
  have "sched_inv (listeners (onUpdateSources env) (m\<lparr>sourcesDirty := False\<rparr>))"
    using inv by (intro sched_inv_listeners) (simp add: sched_inv_def)
  with inv show ?thesis by (simp add: updateSources_def)
qed

lemma sched_inv_paint: "sched_inv m \<Longrightarrow> sched_inv (settle (paint env m))"
  by (auto simp: paint_def settle_simps sched_inv_def split: sum.splits)

lemma sched_inv_frameBody: "sched_inv m \<Longrightarrow> sched_inv (settle (frameBody env m))"
proof -
  assume inv: "sched_inv m"
  let ?m2 = "updateSources env (snd (evaluateStyle env m))"
  let ?m3 = "?m2\<lparr>placementDirty := updatePlacement env\<rparr>"
  have m2: "sched_inv ?m2"
    by (intro sched_inv_updateSources sched_inv_evaluateStyle inv)
  then have m3: "sched_inv ?m3" by (simp add: sched_inv_def)
  show ?thesis
  proof (cases "style ?m2")
    case False
    with m2 show ?thesis by (simp add: frameBody_def Let_def settle_simps)
  next
    case True
    show ?thesis
    proof (cases "paint env ?m3")
      case (Inl e)
      with sched_inv_paint [OF m3, of env] True show ?thesis
        by (cases e) (simp add: frameBody_def Let_def settle_simps)
    next
      case (Inr m4)
      with sched_inv_paint [OF m3, of env] have m4: "sched_inv m4" by (simp add: settle_simps)
      let ?m5 = "fire ''render'' (onRender env) m4"
      have m5: "sched_inv ?m5" by (intro sched_inv_fire m4)
      then have "sched_inv (?m5\<lparr>loadedFlag := True\<rparr>)" by (simp add: sched_inv_def)
      then have m6: "sched_inv (fire ''load'' (onLoad env) (?m5\<lparr>loadedFlag := True\<rparr>))"
        by (rule sched_inv_fire)
      from m5 have m5': "sched_inv (?m5\<lparr>styleDirty := True\<rparr>)" by (simp add: sched_inv_def)
      from m6 have m6': "sched_inv ((fire ''load'' (onLoad env) (?m5\<lparr>loadedFlag := True\<rparr>))\<lparr>styleDirty := True\<rparr>)"
        by (simp add: sched_inv_def)
      from True Inr m5 m6 m5' m6' show ?thesis
        by (simp add: frameBody_def Let_def settle_simps)
    qed
  qed
qed

lemma sched_inv_scheduleNext: "sched_inv m \<Longrightarrow> sched_inv (settle (scheduleNext env m))"
proof -
  assume inv: "sched_inv m"
  have t: "sched_inv (triggerRepaint m)" by (intro sched_inv_triggerRepaint inv)
  then have t': "sched_inv (triggerRepaint m\<lparr>fullyLoaded := True\<rparr>)" by (simp add: sched_inv_def)
  have i: "sched_inv (fire ''idle'' (onIdle env) m)" by (intro sched_inv_fire inv)
  then have i': "sched_inv (fire ''idle'' (onIdle env) m\<lparr>fullyLoaded := True\<rparr>)"
    by (simp add: sched_inv_def)
  from inv have inv': "sched_inv (m\<lparr>fullyLoaded := True\<rparr>)" by (simp add: sched_inv_def)
  from inv inv' t t' i i' show ?thesis
    by (auto simp: scheduleNext_def Let_def settle_simps split: sum.splits)
qed

lemma sched_inv_pipeline: "sched_inv m \<Longrightarrow> sched_inv (settle (pipeline env m))"
proof -
  assume inv: "sched_inv m"
  show ?thesis
  proof (cases "frameBody env m")
    case (Inl e)
    with sched_inv_frameBody [OF inv, of env] show ?thesis
      by (cases e) (simp add: pipeline_def settle_simps)
  next
    case (Inr m1)
    with sched_inv_frameBody [OF inv, of env] have "sched_inv m1" by (simp add: settle_simps)
    from sched_inv_scheduleNext [OF this, of env] Inr show ?thesis by (simp add: pipeline_def)
  qed
qed

lemma sched_inv_render: "sched_inv m \<Longrightarrow> sched_inv (settle (render env m))"
proof -
  assume inv: "sched_inv m"
  then have inv': "sched_inv (m\<lparr>rendered := Suc (rendered m)\<rparr>)" by (simp add: sched_inv_def)
  show ?thesis
  proof (cases "calls_from (tasks env) (m\<lparr>rendered := Suc (rendered m)\<rparr>)")
    case (Inl e)
    with sched_inv_calls_from [OF inv', of "tasks env"] show ?thesis
      by (cases e) (simp add: render_def settle_simps)
  next
    case (Inr m1)
    with sched_inv_calls_from [OF inv', of "tasks env"] have m1: "sched_inv m1"
      by (simp add: settle_simps)
    from sched_inv_pipeline [OF m1, of env] m1 Inr show ?thesis
      by (simp add: render_def settle_simps)
  qed
qed

lemma sched_inv_redraw: "sched_inv m \<Longrightarrow> sched_inv (settle (redraw env m))"
  by (simp add: redraw_def settle_simps sched_inv_render sched_inv_cancelFrame)

lemma tick_unfold:
  "sched_inv m \<Longrightarrow>
   tick env m = (case frame m of None \<Rightarrow> m
                 | Some h \<Rightarrow> settle (render env (m\<lparr>scheduled := [], frame := None\<rparr>)))"
  by (auto simp: tick_def sched_inv_def frameCallback_def split: option.splits)

lemma sched_inv_tick: "sched_inv m \<Longrightarrow> sched_inv (tick env m)"
proof -
  assume inv: "sched_inv m"
  have "sched_inv (m\<lparr>scheduled := [], frame := None\<rparr>)" by (simp add: sched_inv_def)
  from sched_inv_render [OF this, of env] inv show ?thesis
    by (simp add: tick_unfold split: option.splits)
qed

lemma sched_inv_turn: "sched_inv m \<Longrightarrow> sched_inv (turn t m)"
  by (cases t)
    (simp_all add: sched_inv_tick sched_inv_calls_from sched_inv_redraw sched_inv_render)

lemma sched_inv_turns: "sched_inv m \<Longrightarrow> sched_inv (turns ts m)"
  unfolding turns_def by (induction ts arbitrary: m) (simp_all add: sched_inv_turn)

subsection \<open>One execution of the pipeline per call of _render\<close>

lemma rendered_cancelFrame: "rendered (cancelFrame m) = rendered m"
  by (simp add: cancelFrame_def split: option.splits)

lemma rendered_remove: "rendered (settle (remove m)) = rendered m"
  by (simp add: remove_def Let_def settle_simps fire_def listeners_def rendered_cancelFrame
      updateStyle_def)

lemma rendered_api: "rendered (settle (api c m)) = rendered m"
  by (cases c)
    (simp_all add: settle_simps rendered_remove core_fields [OF core_mark] updateStyle_def
      lazyInitEmptyStyle_def)

lemma rendered_calls_from: "rendered (settle (calls_from cs m)) = rendered m"
proof (induction cs arbitrary: m)
  case Nil
  show ?case by (simp add: settle_simps)
next
  case (Cons c cs)
  show ?case
  proof (cases "api c m")
    case (Inl e)
    with rendered_api [of c m] show ?thesis by (cases e) (simp add: settle_simps)
  next
    case (Inr m1)
    with rendered_api [of c m] Cons.IH [of m1] show ?thesis by (simp add: settle_simps)
  qed
qed

lemma rendered_evaluateStyle: "rendered (snd (evaluateStyle env m)) = rendered m"
  by (simp add: evaluateStyle_def Let_def listeners_keeps)

lemma rendered_updateSources: "rendered (updateSources env m) = rendered m"
  by (simp add: updateSources_def listeners_keeps)

lemma rendered_paint: "rendered (settle (paint env m)) = rendered m"
  by (auto simp: paint_def settle_simps split: sum.splits)

lemma rendered_fire: "rendered (fire t cs m) = rendered m"
  by (simp add: fire_def listeners_keeps)

lemma rendered_frameBody: "rendered (settle (frameBody env m)) = rendered m"
proof -
  let ?m2 = "updateSources env (snd (evaluateStyle env m))"
  let ?m3 = "?m2\<lparr>placementDirty := updatePlacement env\<rparr>"
  have m3: "rendered ?m3 = rendered m"
    by (simp add: rendered_updateSources rendered_evaluateStyle)
  show ?thesis
  proof (cases "paint env ?m3")
    case (Inl e)
    with rendered_paint [of env ?m3] m3 show ?thesis
      by (cases e)
        (simp add: frameBody_def Let_def settle_simps rendered_updateSources rendered_evaluateStyle)
  next
    case (Inr m4)
    with rendered_paint [of env ?m3] m3 have "rendered m4 = rendered m"
      by (simp add: settle_simps)
    with Inr show ?thesis
      by (simp add: frameBody_def Let_def settle_simps rendered_updateSources
          rendered_evaluateStyle rendered_fire)
  qed
qed

lemma rendered_scheduleNext: "rendered (settle (scheduleNext env m)) = rendered m"
  by (auto simp: scheduleNext_def Let_def settle_simps rendered_fire triggerRepaint_keeps
      split: sum.splits)

lemma rendered_pipeline: "rendered (settle (pipeline env m)) = rendered m"
proof (cases "frameBody env m")
  case (Inl e)
  with rendered_frameBody [of env m] show ?thesis
    by (cases e) (simp add: pipeline_def settle_simps)
next
  case (Inr m1)
  with rendered_frameBody [of env m] rendered_scheduleNext [of env m1] show ?thesis
    by (simp add: pipeline_def settle_simps)
qed

lemma rendered_render: "rendered (settle (render env m)) = Suc (rendered m)"
proof (cases "calls_from (tasks env) (m\<lparr>rendered := Suc (rendered m)\<rparr>)")
  case (Inl e)
  with rendered_calls_from [of "tasks env" "m\<lparr>rendered := Suc (rendered m)\<rparr>"] show ?thesis
    by (cases e) (simp add: render_def settle_simps)
next
  case (Inr m1)
  with rendered_calls_from [of "tasks env" "m\<lparr>rendered := Suc (rendered m)\<rparr>"]
    rendered_pipeline [of env m1]
  show ?thesis by (simp add: render_def settle_simps)
qed

text \<open>
  C2. Starting from a map that has at most the frame of \<open>_frame\<close> outstanding, no
  sequence of ticks, callbacks, redraws and calls of \<open>_render\<close> leaves more than one
  frame outstanding. While a frame is pending, any number of calls of \<open>triggerRepaint\<close>
  and \<open>_update\<close> leaves the handle and the host's queue as they are, and the next
  animation tick calls \<open>_render\<close> exactly once.
\<close>

theorem repaint_coalescing:
  assumes "sched_inv m"
  shows "length (scheduled (turns ts m)) \<le> 1
    \<and> (frame m \<noteq> None \<longrightarrow>
         frame (listeners cs m) = frame m
         \<and> scheduled (listeners cs m) = scheduled m
         \<and> rendered (tick env (listeners cs m)) = Suc (rendered m))"
proof -
  from sched_inv_turns [OF assms, of ts] have "length (scheduled (turns ts m)) \<le> 1"
    by (simp add: sched_inv_def split: option.splits)
  moreover have "frame (listeners cs m) = frame m
         \<and> scheduled (listeners cs m) = scheduled m
         \<and> rendered (tick env (listeners cs m)) = Suc (rendered m)"
    if pending: "frame m \<noteq> None"
  proof -
    note same = pending_listeners [OF pending, of cs]
    from pending obtain h where h: "frame (listeners cs m) = Some h"
      using same by auto
    have inv: "sched_inv (listeners cs m)" by (rule sched_inv_listeners [OF assms])
    have "rendered (tick env (listeners cs m)) = Suc (rendered (listeners cs m))"
      by (simp add: tick_unfold [OF inv] h rendered_render)
    with same show ?thesis by (simp add: listeners_keeps)
  qed
  ultimately show ?thesis by blast
qed

subsection \<open>Marking the map dirty\<close>

text \<open>
  C9. With a style present, \<open>_update(updateStyle)\<close> sets the sources-dirty flag, sets the
  style-dirty flag if \<open>updateStyle\<close> is true and leaves it as it is otherwise, requests
  a frame if none is scheduled and leaves a scheduled one alone, and neither paints, nor
  runs the pipeline, nor fires an event.
\<close>

theorem update_marks_dirty:
  assumes "style m"
  shows "sourcesDirty (update b m)
    \<and> styleDirty (update b m) = (styleDirty m \<or> b)
    \<and> (frame m = None \<longrightarrow>
         frame (update b m) = Some (nextHandle m)
         \<and> scheduled (update b m) = scheduled m @ [nextHandle m])
    \<and> (frame m \<noteq> None \<longrightarrow>
         frame (update b m) = frame m \<and> scheduled (update b m) = scheduled m)
    \<and> painted (update b m) = painted m
    \<and> rendered (update b m) = rendered m
    \<and> fired (update b m) = fired m"
  using assms by (simp add: update_def triggerRepaint_def)

text \<open>
  C10. Without a style, \<open>_update\<close> returns the map as it is, \<open>triggerRepaint\<close> schedules
  nothing, and \<open>redraw\<close> does not render; so it is after \<open>remove\<close>, which deletes the
  style.
\<close>

theorem no_style_no_frame:
  "(\<not> style m \<longrightarrow>
      update b m = m \<and> triggerRepaint m = m \<and> listeners cs m = m \<and> redraw env m = Inr m)
   \<and> (remove m0 = Inr m \<longrightarrow>
      \<not> style m \<and> update b m = m \<and> triggerRepaint m = m \<and> listeners cs m = m)"
proof -
  have 1: "update b m = m \<and> triggerRepaint m = m \<and> listeners cs m = m \<and> redraw env m = Inr m"
    if "\<not> style m"
    using that by (simp add: update_def triggerRepaint_def no_style_listeners redraw_def)
  have "\<not> style m" if "remove m0 = Inr m"
    using that
    by (auto simp: remove_def Let_def fire_def listeners_def updateStyle_def split: if_splits)
  with 1 show ?thesis by blast
qed

subsection \<open>After remove\<close>

lemma remove_result:
  "remove m = Inr m' \<Longrightarrow>
   m' = cancelFrame m\<lparr>handlers := False, style := False, removed := True,
          fired := fired m @ [''remove'']\<rparr>"
  by (auto simp: remove_def Let_def fire_def listeners_def cancelFrame_def updateStyle_def
      split: if_splits option.splits)











subsection \<open>The frame with a style and its handlers\<close>

lemma paint_handlers:
  "handlers m \<Longrightarrow> paint env m = Inr (m\<lparr>painted := Suc (painted m)\<rparr>)"
  by (simp add: paint_def isRotating_def isZooming_def isMoving_def)

lemma style_fire: "style (fire t cs m) = style m"
  by (simp add: fire_def listeners_keeps)

lemma style_frame_steps: "style (updateSources env (snd (evaluateStyle env m))) = style m"
  by (simp add: updateSources_def evaluateStyle_def Let_def listeners_keeps)

lemma handlers_frame_steps:
  "handlers (updateSources env (snd (evaluateStyle env m))) = handlers m"
  by (simp add: updateSources_def evaluateStyle_def Let_def listeners_keeps)

lemma factor_frame_steps:
  "crossFadingFactor (updateSources env (snd (evaluateStyle env m)))
     = crossFadingFactor (snd (evaluateStyle env m))"
  by (simp add: updateSources_def listeners_keeps)

text \<open>
  With a style and the handlers in place the body of the frame does not raise. \<open>m6\<close> is
  the map after the \<open>load\<close> event, to which the last statement of the body applies.
\<close>

lemma frameBody_runs:
  assumes "style m" "handlers m"
  shows "\<exists>m6. frameBody env m =
            Inr (if hasTransitions env \<or> fst (evaluateStyle env m)
                 then m6\<lparr>styleDirty := True\<rparr> else m6)
          \<and> style m6 \<and> handlers m6
          \<and> crossFadingFactor m6 = crossFadingFactor (snd (evaluateStyle env m))
          \<and> (keeps_style (onUpdateSources env) \<and> keeps_style (onRender env)
               \<and> keeps_style (onLoad env) \<longrightarrow>
              styleDirty m6 = styleDirty (snd (evaluateStyle env m)))"
proof -
  let ?m2 = "updateSources env (snd (evaluateStyle env m))"
  let ?m3 = "?m2\<lparr>placementDirty := updatePlacement env\<rparr>"
  let ?m4 = "?m3\<lparr>painted := Suc (painted ?m3)\<rparr>"
  let ?m5 = "fire ''render'' (onRender env) ?m4"
  let ?m6 = "if loaded env ?m5 \<and> \<not> loadedFlag ?m5
             then fire ''load'' (onLoad env) (?m5\<lparr>loadedFlag := True\<rparr>) else ?m5"
  have s2: "style ?m2" and h2: "handlers ?m2"
    using assms by (simp_all add: style_frame_steps handlers_frame_steps)
  then have p: "paint env ?m3 = Inr ?m4" by (simp add: paint_handlers)
  have s6: "style ?m6" using s2 by (simp add: style_fire)
  have h6: "handlers ?m6" using h2 by (simp add: fire_def listeners_keeps)
  have f6: "crossFadingFactor ?m6 = crossFadingFactor (snd (evaluateStyle env m))"
    by (simp add: fire_def listeners_keeps factor_frame_steps)
  have d6: "styleDirty ?m6 = styleDirty (snd (evaluateStyle env m))"
    if "keeps_style (onUpdateSources env) \<and> keeps_style (onRender env)
        \<and> keeps_style (onLoad env)"
    using that by (simp add: fire_def keeps_style_listeners updateSources_def)
  have "frameBody env m =
      Inr (if hasTransitions env \<or> fst (evaluateStyle env m)
           then ?m6\<lparr>styleDirty := True\<rparr> else ?m6)"
    unfolding frameBody_def Let_def using s2 s6 by (simp only: p if_True if_False simp_thms sum.case)
  with s6 h6 f6 d6 show ?thesis by blast
qed

lemma scheduleNext_dirty:
  "style m \<Longrightarrow> somethingDirty m \<or> repaint m \<Longrightarrow>
   scheduleNext env m = Inr (triggerRepaint m) \<or>
   scheduleNext env m = Inr (triggerRepaint m\<lparr>fullyLoaded := True\<rparr>)"
  by (auto simp: scheduleNext_def Let_def)

lemma styleDirty_triggerRepaint: "styleDirty (triggerRepaint m) = styleDirty m"
  by (simp add: triggerRepaint_def)

lemma styleDirty_scheduleNext:
  "handlers m \<Longrightarrow> keeps_style (onIdle env) \<Longrightarrow>
   \<exists>m'. scheduleNext env m = Inr m' \<and> styleDirty m' = styleDirty m
     \<and> crossFadingFactor m' = crossFadingFactor m"
  by (auto simp: scheduleNext_def Let_def isMoving_def fire_def keeps_style_listeners
      listeners_keeps triggerRepaint_keeps styleDirty_triggerRepaint)

text \<open>
  C5. Take a frame past the removed guard, with a style and with the style-dirty flag
  set, so that the frame consumes the flag. If the crossfade factor computed in the frame
  is not the stored one, the frame stores it, ends with the style-dirty flag set again
  and has a frame scheduled. If the computed and the stored factor are both 1, no style
  transition is in progress and no listener asks for the style to be reprocessed, the
  frame ends with the style-dirty flag clear and the stored factor still 1.
\<close>

theorem crossfade_keeps_rendering:
  assumes "style m" "styleDirty m" "handlers m"
  shows "(strict_neq (factor env) (crossFadingFactor m) \<longrightarrow>
            (\<exists>m'. pipeline env m = Inr m' \<and> styleDirty m' \<and> frame m' \<noteq> None
                  \<and> crossFadingFactor m' = factor env))
    \<and> (factor env = Num 1 \<and> crossFadingFactor m = Num 1 \<and> \<not> hasTransitions env
        \<and> keeps_style (onStyleUpdate env) \<and> keeps_style (onUpdateSources env)
        \<and> keeps_style (onRender env) \<and> keeps_style (onLoad env) \<and> keeps_style (onIdle env) \<longrightarrow>
            (\<exists>m'. pipeline env m = Inr m' \<and> \<not> styleDirty m'
                  \<and> crossFadingFactor m' = Num 1))"
proof -
  from frameBody_runs [OF assms(1,3), of env] obtain m6 where
    body: "frameBody env m =
            Inr (if hasTransitions env \<or> fst (evaluateStyle env m)
                 then m6\<lparr>styleDirty := True\<rparr> else m6)"
    and s6: "style m6" and h6: "handlers m6"
    and f6: "crossFadingFactor m6 = crossFadingFactor (snd (evaluateStyle env m))"
    and d6: "keeps_style (onUpdateSources env) \<and> keeps_style (onRender env)
               \<and> keeps_style (onLoad env) \<longrightarrow>
              styleDirty m6 = styleDirty (snd (evaluateStyle env m))"
    by blast
  have changed: "\<exists>m'. pipeline env m = Inr m' \<and> styleDirty m' \<and> frame m' \<noteq> None
                  \<and> crossFadingFactor m' = factor env"
    if neq: "strict_neq (factor env) (crossFadingFactor m)"
  proof -
    from assms neq have cf: "fst (evaluateStyle env m)"
      by (simp add: evaluateStyle_def Let_def)
    from assms neq have "crossFadingFactor (snd (evaluateStyle env m)) = factor env"
      by (simp add: evaluateStyle_def Let_def listeners_keeps)
    with f6 have f: "crossFadingFactor m6 = factor env" by simp
    let ?m7 = "m6\<lparr>styleDirty := True\<rparr>"
    from body cf have b: "frameBody env m = Inr ?m7" by simp
    have "style ?m7" "somethingDirty ?m7 \<or> repaint ?m7"
      using s6 by (simp_all add: somethingDirty_def)
    from scheduleNext_dirty [OF this, of env] b f s6 show ?thesis
      by (auto simp: pipeline_def triggerRepaint_def)
  qed
  have stable: "\<exists>m'. pipeline env m = Inr m' \<and> \<not> styleDirty m' \<and> crossFadingFactor m' = Num 1"
    if st: "factor env = Num 1 \<and> crossFadingFactor m = Num 1 \<and> \<not> hasTransitions env
        \<and> keeps_style (onStyleUpdate env) \<and> keeps_style (onUpdateSources env)
        \<and> keeps_style (onRender env) \<and> keeps_style (onLoad env) \<and> keeps_style (onIdle env)"
  proof -
    from assms st have cf: "\<not> fst (evaluateStyle env m)"
      by (simp add: evaluateStyle_def Let_def)
    from assms st have e: "\<not> styleDirty (snd (evaluateStyle env m))"
      "crossFadingFactor (snd (evaluateStyle env m)) = Num 1"
      by (simp_all add: evaluateStyle_def Let_def listeners_keeps keeps_style_listeners)
    from body cf st have b: "frameBody env m = Inr m6" by simp
    from d6 st e have d: "\<not> styleDirty m6" by simp
    from f6 e have f: "crossFadingFactor m6 = Num 1" by simp
    from st have "keeps_style (onIdle env)" by simp
    from styleDirty_scheduleNext [OF h6 this] obtain m' where
      "scheduleNext env m6 = Inr m'" "styleDirty m' = styleDirty m6"
      "crossFadingFactor m' = crossFadingFactor m6"
      by blast
    with b d f show ?thesis by (simp add: pipeline_def)
  qed
  from changed stable show ?thesis by blast
qed

subsection \<open>Idle\<close>

lemma frameBody_style: "frameBody env m = Inr m1 \<Longrightarrow> style m1"
proof -
  assume body: "frameBody env m = Inr m1"
  let ?m2 = "updateSources env (snd (evaluateStyle env m))"
  from body have s2: "style ?m2"
    by (auto simp: frameBody_def Let_def split: if_splits)
  from body s2 obtain m4 where p: "paint env (?m2\<lparr>placementDirty := updatePlacement env\<rparr>) = Inr m4"
    by (auto simp: frameBody_def Let_def split: sum.splits)
  then have "style m4" using s2
    by (auto simp: paint_def split: sum.splits)
  with body s2 p show ?thesis
    by (auto simp: frameBody_def Let_def style_fire split: if_splits)
qed

lemma idle_tick: "sched_inv m \<Longrightarrow> frame m = None \<Longrightarrow> tick env m = m"
  by (simp add: tick_unfold)

text \<open>No call of a callback fires \<open>idle\<close>.\<close>

lemma idles_api: "idles (settle (api c m)) = idles m"
proof (cases c)
  case (Mark r)
  with core_fields [OF core_mark, of r m] show ?thesis by (simp add: idles_def settle_simps)
next
  case Remove
  show ?thesis
  proof (cases "remove m")
    case (Inl e)
    then show ?thesis
      by (cases e)
        (auto simp: Remove idles_def settle_simps remove_def Let_def cancelFrame_def
          split: if_splits option.splits)
  next
    case (Inr m')
    from remove_result [OF this] Inr show ?thesis
      by (simp add: Remove idles_def settle_simps cancelFrame_def split: option.splits)
  qed
next
  case (UpdateStyle given)
  then show ?thesis by (simp add: idles_def settle_simps updateStyle_def)
next
  case LazyInitEmptyStyle
  then show ?thesis by (simp add: idles_def settle_simps lazyInitEmptyStyle_def)
qed

lemma idles_calls_from: "idles (settle (calls_from cs m)) = idles m"
proof (induction cs arbitrary: m)
  case Nil
  show ?case by (simp add: settle_simps)
next
  case (Cons c cs)
  show ?case
  proof (cases "api c m")
    case (Inl e)
    with idles_api [of c m] show ?thesis by (cases e) (simp add: settle_simps)
  next
    case (Inr m1)
    with idles_api [of c m] Cons.IH [of m1] show ?thesis by (simp add: settle_simps)
  qed
qed

text \<open>
  While no frame is outstanding, animation ticks and callbacks fire no \<open>idle\<close>: a tick
  has no frame callback to run, and a callback does not render.
\<close>

lemma quiet_turns:
  "sched_inv m \<Longrightarrow> list_all passive_turn ts \<Longrightarrow>
   \<forall>n\<le>length ts. frame (turns (take n ts) m) = None \<Longrightarrow>
   idles (turns ts m) = idles m"
proof (induction ts arbitrary: m)
  case Nil
  show ?case by (simp add: turns_def)
next
  case (Cons t ts)
  from Cons.prems(3) [rule_format, of 0] have f0: "frame m = None"
    by (simp add: turns_def)
  have step: "idles (turn t m) = idles m"
  proof (cases t)
    case (Tick env)
    with idle_tick [OF Cons.prems(1) f0] show ?thesis by simp
  next
    case (Callback cs)
    with idles_calls_from show ?thesis by simp
  next
    case (Redraw env)
    with Cons.prems(2) show ?thesis by simp
  next
    case (Render env)
    with Cons.prems(2) show ?thesis by simp
  qed
  have inv: "sched_inv (turn t m)" by (rule sched_inv_turn [OF Cons.prems(1)])
  have rest: "\<forall>n\<le>length ts. frame (turns (take n ts) (turn t m)) = None"
  proof (intro allI impI)
    fix n
    assume "n \<le> length ts"
    then have "Suc n \<le> length (t # ts)" by simp
    from Cons.prems(3) [rule_format, OF this]
    show "frame (turns (take n ts) (turn t m)) = None"
      by (simp add: turns_def)
  qed
  from Cons.prems(2) have "list_all passive_turn ts" by simp
  from Cons.IH [OF inv this rest] step show ?case by (simp add: turns_def)
qed

text \<open>
  C8, amended. Take a frame whose body has run, on a map that has at most the frame of
  \<open>_frame\<close> outstanding, and the map as it is when the frame decides whether to
  schedule another. If anything is dirty or continuous repaint is on, a frame is
  scheduled and no event is fired. If nothing is dirty, continuous repaint is off, the
  map is not moving and the style reports that it has loaded, exactly one \<open>idle\<close> is
  fired, and no frame is requested unless a listener of \<open>idle\<close> asks for one. From
  then on, for as long as no frame is outstanding, no animation tick and no callback
  fires \<open>idle\<close> again, whatever the callbacks call: it takes a call that schedules a
  frame, or a call of \<open>redraw\<close>, which renders at once. If nothing is dirty and
  continuous repaint is off, but the map is moving or the style has not loaded, nothing
  is fired and no frame is requested.
\<close>

theorem idle_after_clean_frame:
  assumes "frameBody env m = Inr m1" and "sched_inv m"
  shows "(somethingDirty m1 \<or> repaint m1 \<longrightarrow>
            (\<exists>m'. pipeline env m = Inr m' \<and> fired m' = fired m1 \<and> frame m' \<noteq> None))
    \<and> (\<not> somethingDirty m1 \<and> \<not> repaint m1 \<and> isMoving env m1 = Inr False \<and> styleLoaded env \<longrightarrow>
            (\<exists>m'. pipeline env m = Inr m' \<and> fired m' = fired m1 @ [''idle'']
               \<and> (onIdle env = [] \<longrightarrow> frame m' = frame m1 \<and> scheduled m' = scheduled m1)
               \<and> (\<forall>ts. list_all passive_turn ts
                       \<and> (\<forall>n\<le>length ts. frame (turns (take n ts) m') = None) \<longrightarrow>
                     idles (turns ts m') = idles m')))
    \<and> (\<not> somethingDirty m1 \<and> \<not> repaint m1
        \<and> (isMoving env m1 = Inr True \<or> isMoving env m1 = Inr False \<and> \<not> styleLoaded env) \<longrightarrow>
            (\<exists>m'. pipeline env m = Inr m' \<and> fired m' = fired m1 \<and> frame m' = frame m1
               \<and> scheduled m' = scheduled m1))"
proof -
  note s1 = frameBody_style [OF assms(1)]
  have p: "pipeline env m = scheduleNext env m1"
    using assms(1) by (simp add: pipeline_def)
  have dirty: "\<exists>m'. pipeline env m = Inr m' \<and> fired m' = fired m1 \<and> frame m' \<noteq> None"
    if "somethingDirty m1 \<or> repaint m1"
    using scheduleNext_dirty [OF s1 that, of env] s1
    by (auto simp: p triggerRepaint_def)
  have idle: "\<exists>m'. pipeline env m = Inr m' \<and> fired m' = fired m1 @ [''idle'']
               \<and> (onIdle env = [] \<longrightarrow> frame m' = frame m1 \<and> scheduled m' = scheduled m1)
               \<and> (\<forall>ts. list_all passive_turn ts
                       \<and> (\<forall>n\<le>length ts. frame (turns (take n ts) m') = None) \<longrightarrow>
                     idles (turns ts m') = idles m')"
    if c: "\<not> somethingDirty m1 \<and> \<not> repaint m1 \<and> isMoving env m1 = Inr False \<and> styleLoaded env"
  proof -
    from c s1 have l: "loaded env m1" by (simp add: loaded_def somethingDirty_def)
    let ?i = "fire ''idle'' (onIdle env) m1"
    let ?m' = "if loadedFlag ?i \<and> \<not> fullyLoaded ?i then ?i\<lparr>fullyLoaded := True\<rparr> else ?i"
    from c l have r: "scheduleNext env m1 = Inr ?m'"
      by (simp add: scheduleNext_def Let_def)
    have f: "fired ?m' = fired m1 @ [''idle'']"
      by (simp add: fire_def listeners_keeps)
    have q: "onIdle env = [] \<longrightarrow> frame ?m' = frame m1 \<and> scheduled ?m' = scheduled m1"
      by (simp add: fire_def listeners_def)
    from sched_inv_pipeline [OF assms(2), of env] r have inv: "sched_inv ?m'"
      by (simp only: p settle_simps)
    have t: "\<forall>ts. list_all passive_turn ts
                \<and> (\<forall>n\<le>length ts. frame (turns (take n ts) ?m') = None) \<longrightarrow>
              idles (turns ts ?m') = idles ?m'"
      using quiet_turns [OF inv] by blast
    from r f q t show ?thesis unfolding p by blast
  qed
  have quiet: "\<exists>m'. pipeline env m = Inr m' \<and> fired m' = fired m1 \<and> frame m' = frame m1
               \<and> scheduled m' = scheduled m1"
    if c: "\<not> somethingDirty m1 \<and> \<not> repaint m1
        \<and> (isMoving env m1 = Inr True \<or> isMoving env m1 = Inr False \<and> \<not> styleLoaded env)"
    using c by (auto simp: p scheduleNext_def Let_def loaded_def)
  from dirty idle quiet show ?thesis by blast
qed

subsection \<open>The concrete frames\<close>

lemmas loop_defs =
  render_def pipeline_def frameBody_def scheduleNext_def evaluateStyle_def
  updateSources_def paint_def isRotating_def isZooming_def isMoving_def loaded_def
  somethingDirty_def fire_def listeners_def update_def triggerRepaint_def cancelFrame_def
  remove_def updateStyle_def lazyInitEmptyStyle_def tick_def frameCallback_def settle_def
  turns_def redraw_def keeps_style_def sched_inv_def idles_def Let_def

lemmas loop_inputs =
  still_map_def pending_map_def loading_env_def ready_env_def fading_env_def
  restyled_map_def repainting_map_def bare_map_def removed_map_def idle_map_def
  panning_map_def abandoned_map_def late_turns_def

lemma loading_frameBody:
  "frameBody loading_env still_map = Inr (still_map\<lparr>fired := [''render''], painted := 1\<rparr>)"
  by (simp add: loop_defs loop_inputs)

lemma loading_render:
  "render loading_env still_map
     = Inr (still_map\<lparr>fired := [''render''], painted := 1, rendered := 1\<rparr>)"
  by (simp add: loop_defs loop_inputs)

lemma ready_frameBody:
  "frameBody ready_env still_map
     = Inr (still_map\<lparr>loadedFlag := True, fired := [''render'', ''load''], painted := 1\<rparr>)"
  by (simp add: loop_defs loop_inputs)

lemma repainting_frameBody:
  "frameBody ready_env repainting_map
     = Inr (repainting_map\<lparr>loadedFlag := True, fired := [''render'', ''load''], painted := 1\<rparr>)"
  by (simp add: loop_defs loop_inputs)

lemma remove_pending: "remove pending_map = Inr removed_map"
  by (simp add: loop_defs loop_inputs)

theorem repaint_coalescing_witness:
  "sched_inv pending_map \<and> frame pending_map = Some 0
   \<and> length (scheduled (turns
        [Callback [Mark (Update True), Mark TriggerRepaint], Tick fading_env, Redraw ready_env]
        pending_map)) \<le> 1
   \<and> frame (listeners [Update True, TriggerRepaint, Update False] pending_map) = Some 0
   \<and> scheduled (listeners [Update True, TriggerRepaint, Update False] pending_map) = [0]
   \<and> rendered (tick ready_env (listeners [Update True, TriggerRepaint, Update False] pending_map))
       = 1"
proof -
  have inv: "sched_inv pending_map" by (simp add: loop_defs loop_inputs)
  have fr: "frame pending_map = Some 0" "scheduled pending_map = [0]" "rendered pending_map = 0"
    by (simp_all add: loop_inputs)
  from repaint_coalescing [OF inv,
      of "[Callback [Mark (Update True), Mark TriggerRepaint], Tick fading_env, Redraw ready_env]"
         "[Update True, TriggerRepaint, Update False]" ready_env] inv fr
  show ?thesis by simp
qed

theorem update_marks_dirty_witness:
  "style still_map \<and> frame still_map = None
   \<and> sourcesDirty (update True still_map) \<and> styleDirty (update True still_map)
   \<and> frame (update True still_map) = Some 1 \<and> scheduled (update True still_map) = [1]
   \<and> painted (update True still_map) = 0 \<and> rendered (update True still_map) = 0
   \<and> fired (update True still_map) = []
   \<and> style pending_map \<and> frame pending_map = Some 0
   \<and> sourcesDirty (update False pending_map) \<and> \<not> styleDirty (update False pending_map)
   \<and> frame (update False pending_map) = Some 0 \<and> scheduled (update False pending_map) = [0]"
proof -
  have s: "style still_map" "style pending_map" by (simp_all add: loop_inputs)
  have v: "frame still_map = None" "nextHandle still_map = 1" "scheduled still_map = []"
    "painted still_map = 0" "rendered still_map = 0" "fired still_map = []"
    "frame pending_map = Some 0" "scheduled pending_map = [0]"
    "\<not> styleDirty still_map" "\<not> styleDirty pending_map"
    by (simp_all add: loop_inputs)
  from update_marks_dirty [OF s(1), of True] update_marks_dirty [OF s(2), of False] s v
  show ?thesis by simp
qed

theorem no_style_no_frame_witness:
  "\<not> style bare_map \<and> update True bare_map = bare_map \<and> triggerRepaint bare_map = bare_map
   \<and> listeners [Update True, TriggerRepaint] bare_map = bare_map
   \<and> redraw ready_env bare_map = Inr bare_map
   \<and> remove pending_map = Inr removed_map
   \<and> \<not> style removed_map \<and> update True removed_map = removed_map
   \<and> triggerRepaint removed_map = removed_map"
proof -
  have b: "\<not> style bare_map" by (simp add: loop_inputs)
  from no_style_no_frame [of bare_map True "[Update True, TriggerRepaint]" ready_env pending_map]
    no_style_no_frame [of removed_map True "[]" ready_env pending_map] b remove_pending
  show ?thesis by simp
qed




theorem crossfade_keeps_rendering_witness:
  "style restyled_map \<and> styleDirty restyled_map \<and> handlers restyled_map
   \<and> strict_neq (factor fading_env) (crossFadingFactor restyled_map)
   \<and> (\<exists>m'. pipeline fading_env restyled_map = Inr m' \<and> styleDirty m' \<and> frame m' \<noteq> None
         \<and> crossFadingFactor m' = Num (1 / 2))
   \<and> factor ready_env = Num 1 \<and> crossFadingFactor restyled_map = Num 1
   \<and> \<not> hasTransitions ready_env \<and> keeps_style (onStyleUpdate ready_env)
   \<and> keeps_style (onUpdateSources ready_env) \<and> keeps_style (onRender ready_env)
   \<and> keeps_style (onLoad ready_env) \<and> keeps_style (onIdle ready_env)
   \<and> (\<exists>m'. pipeline ready_env restyled_map = Inr m' \<and> \<not> styleDirty m'
         \<and> crossFadingFactor m' = Num 1)"
proof -
  have h: "style restyled_map" "styleDirty restyled_map" "handlers restyled_map"
    by (simp_all add: loop_inputs)
  have a: "strict_neq (factor fading_env) (crossFadingFactor restyled_map)"
    "factor fading_env = Num (1 / 2)"
    by (simp_all add: loop_inputs)
  have b: "factor ready_env = Num 1" "crossFadingFactor restyled_map = Num 1"
    "\<not> hasTransitions ready_env" "keeps_style (onStyleUpdate ready_env)"
    "keeps_style (onUpdateSources ready_env)" "keeps_style (onRender ready_env)"
    "keeps_style (onLoad ready_env)" "keeps_style (onIdle ready_env)"
    by (simp_all add: loop_inputs keeps_style_def)
  from crossfade_keeps_rendering [OF h, of fading_env] a
  have 1: "\<exists>m'. pipeline fading_env restyled_map = Inr m' \<and> styleDirty m' \<and> frame m' \<noteq> None
         \<and> crossFadingFactor m' = Num (1 / 2)"
    by simp
  from crossfade_keeps_rendering [OF h, of ready_env] b
  have 2: "\<exists>m'. pipeline ready_env restyled_map = Inr m' \<and> \<not> styleDirty m'
         \<and> crossFadingFactor m' = Num 1"
    by simp
  from h a b 1 2 show ?thesis by simp
qed

text \<open>
  C8, as stated, fails on \<open>still_map\<close> in \<open>loading_env\<close>: the frame ends with nothing
  dirty, continuous repaint off and the map not moving, and fires \<open>render\<close> and no
  \<open>idle\<close>, because the style has not loaded.
\<close>

theorem idle_waits_for_loaded_style:
  "frameBody loading_env still_map
     = Inr (still_map\<lparr>fired := [''render''], painted := 1\<rparr>)
   \<and> \<not> somethingDirty (still_map\<lparr>fired := [''render''], painted := 1\<rparr>)
   \<and> \<not> repaint (still_map\<lparr>fired := [''render''], painted := 1\<rparr>)
   \<and> isMoving loading_env (still_map\<lparr>fired := [''render''], painted := 1\<rparr>) = Inr False
   \<and> render loading_env still_map
       = Inr (still_map\<lparr>fired := [''render''], painted := 1, rendered := 1\<rparr>)"
  using loading_frameBody loading_render
  by (simp add: somethingDirty_def isMoving_def loop_inputs)

text \<open>
  A call of \<open>redraw\<close> renders at once: on the map the idle frame left, with no frame
  outstanding, it fires \<open>idle\<close> a second time.
\<close>

lemma ready_pipeline: "pipeline ready_env still_map = Inr idle_map"
  by (simp add: loop_defs loop_inputs)

lemma redraw_fires_idle_again:
  "frame idle_map = None \<and> scheduled idle_map = []
   \<and> fired (turns [Redraw ready_env] idle_map)
       = [''render'', ''load'', ''idle'', ''render'', ''idle'']"
  by (simp add: loop_defs loop_inputs)

theorem idle_after_clean_frame_witness:
  "sched_inv still_map \<and> sched_inv repainting_map
   \<and> frameBody ready_env still_map
     = Inr (still_map\<lparr>loadedFlag := True, fired := [''render'', ''load''], painted := 1\<rparr>)
   \<and> pipeline ready_env still_map = Inr idle_map
   \<and> fired idle_map = [''render'', ''load'', ''idle''] \<and> frame idle_map = None
   \<and> scheduled idle_map = []
   \<and> list_all passive_turn [Tick ready_env, Callback [LazyInitEmptyStyle], Tick loading_env]
   \<and> map (\<lambda>n. frame (turns (take n [Tick ready_env, Callback [LazyInitEmptyStyle], Tick loading_env])
            idle_map)) [0, 1, 2, 3] = [None, None, None, None]
   \<and> idles (turns [Tick ready_env, Callback [LazyInitEmptyStyle], Tick loading_env] idle_map) = 1
   \<and> frameBody ready_env repainting_map
       = Inr (repainting_map\<lparr>loadedFlag := True, fired := [''render'', ''load''], painted := 1\<rparr>)
   \<and> (\<exists>m'. pipeline ready_env repainting_map = Inr m'
         \<and> fired m' = [''render'', ''load''] \<and> frame m' \<noteq> None)
   \<and> frameBody loading_env still_map
       = Inr (still_map\<lparr>fired := [''render''], painted := 1\<rparr>)
   \<and> (\<exists>m'. pipeline loading_env still_map = Inr m'
         \<and> fired m' = [''render''] \<and> frame m' = None \<and> scheduled m' = [])"
proof -
  let ?ready = "still_map\<lparr>loadedFlag := True, fired := [''render'', ''load''], painted := 1\<rparr>"
  let ?busy = "repainting_map\<lparr>loadedFlag := True, fired := [''render'', ''load''], painted := 1\<rparr>"
  let ?loading = "still_map\<lparr>fired := [''render''], painted := 1\<rparr>"
  let ?ts = "[Tick ready_env, Callback [LazyInitEmptyStyle], Tick loading_env]"
  have inv: "sched_inv still_map" "sched_inv repainting_map"
    by (simp_all add: sched_inv_def loop_inputs)
  have r: "\<not> somethingDirty ?ready" "\<not> repaint ?ready" "isMoving ready_env ?ready = Inr False"
    "styleLoaded ready_env"
    by (simp_all add: somethingDirty_def isMoving_def loop_inputs)
  have i: "fired idle_map = [''render'', ''load'', ''idle'']" "frame idle_map = None"
    "scheduled idle_map = []" "idles idle_map = 1"
    by (simp_all add: idles_def loop_inputs)
  have b: "repaint ?busy" "fired ?busy = [''render'', ''load'']"
    by (simp_all add: loop_inputs)
  have l: "\<not> somethingDirty ?loading" "\<not> repaint ?loading"
    "isMoving loading_env ?loading = Inr False" "\<not> styleLoaded loading_env"
    "fired ?loading = [''render'']" "frame ?loading = None" "scheduled ?loading = []"
    by (simp_all add: somethingDirty_def isMoving_def loop_inputs)
  have ps: "list_all passive_turn ?ts" by simp
  have fr: "map (\<lambda>n. frame (turns (take n ?ts) idle_map)) [0, 1, 2, 3] = [None, None, None, None]"
    by (simp add: loop_defs loop_inputs numeral_2_eq_2 numeral_3_eq_3)
  have quiet: "\<forall>n\<le>length ?ts. frame (turns (take n ?ts) idle_map) = None"
  proof (intro allI impI)
    fix n :: nat
    assume "n \<le> length ?ts"
    then consider "n = 0" | "n = Suc 0" | "n = Suc (Suc 0)" | "n = Suc (Suc (Suc 0))"
      by force
    then show "frame (turns (take n ?ts) idle_map) = None"
      using fr by cases (simp_all add: numeral_2_eq_2 numeral_3_eq_3)
  qed
  from idle_after_clean_frame [OF ready_frameBody inv(1)] r ready_pipeline ps quiet i
  have 1: "idles (turns ?ts idle_map) = 1"
    by auto
  from idle_after_clean_frame [OF repainting_frameBody inv(2)] b
  have 2: "\<exists>m'. pipeline ready_env repainting_map = Inr m'
         \<and> fired m' = [''render'', ''load''] \<and> frame m' \<noteq> None"
    by auto
  from idle_after_clean_frame [OF loading_frameBody inv(1)] l
  have 3: "\<exists>m'. pipeline loading_env still_map = Inr m'
         \<and> fired m' = [''render''] \<and> frame m' = None \<and> scheduled m' = []"
    by auto
  from inv ready_frameBody ready_pipeline i ps fr repainting_frameBody loading_frameBody 1 2 3
  show ?thesis by simp
qed

end
